theory Spec2Isabelle
  imports Main "HOL-Library.AList"
begin

section \<open>Python helpers shared by both scripts\<close>

text \<open>
  Texts are \<open>string\<close>s whose characters are read as code points below 256.
  \<open>is_space\<close> is Python's \<open>str.isspace\<close> on that range: TAB..CR, FS..US, the blank,
  NEL (133) and the no-break space (160). \<open>strip\<close> is \<open>str.strip()\<close> with no argument.
\<close>

definition is_space :: "char \<Rightarrow> bool" where
  "is_space c =
     (let n = (of_char c :: nat)
      in (9 \<le> n \<and> n \<le> 13) \<or> (28 \<le> n \<and> n \<le> 32) \<or> n = 133 \<or> n = 160)"

definition strip :: "string \<Rightarrow> string" where
  "strip s = rev (dropWhile is_space (rev (dropWhile is_space s)))"

text \<open>\<open>sep.join(xs)\<close>.\<close>

fun join :: "string \<Rightarrow> string list \<Rightarrow> string" where
  "join sep [] = []"
| "join sep [x] = x"
| "join sep (x # y # ys) = x @ sep @ join sep (y # ys)"

text \<open>
  Truth value of an identifier that is either \<open>None\<close> or a string: \<open>None\<close> and the
  empty string are false.
\<close>

fun truthy :: "string option \<Rightarrow> bool" where
  "truthy None = False"
| "truthy (Some s) = (s \<noteq> [])"

text \<open>A library call either raises or returns.\<close>

datatype 'a outcome = Raises | Returns 'a

section \<open>The Publisher: \<open>post_to_threads.py\<close>\<close>

subsection \<open>The outside world and the observable state\<close>

text \<open>
  The reply of the platform to one POST: the request raises (network error, HTTP error
  status, body that is not JSON), or a JSON object arrives whose \<open>id\<close> field may be
  missing.
\<close>

datatype api_response = RequestError | Json "string option"

text \<open>
  What the spreadsheet service answers during one run of \<open>update_post_status\<close>:
  \<open>worksheet.find\<close> (the row of the matching cell, if any), \<open>worksheet.row_values(1)\<close>
  (the header row) and whether \<open>worksheet.batch_update\<close> raises.
\<close>

record sheet_answers =
  find_res :: "nat option outcome"
  headers_res :: "string list outcome"
  batch_raises :: bool

text \<open>
  The world fixes the reply to the n-th creation request, to the n-th publish request
  and the answers during the n-th status update (all counted from 0).
\<close>

record world =
  create_resp :: "nat \<Rightarrow> api_response"
  publish_resp :: "nat \<Rightarrow> api_response"
  sheet_resp :: "nat \<Rightarrow> sheet_answers"

text \<open>
  What a run does to the outside, in order: a creation request with its payload (text
  and optional \<open>reply_to_id\<close>), a publish request with its \<open>creation_id\<close>,
  \<open>time.sleep\<close>, and a call of \<open>update_post_status\<close> with the status and the optional
  platform identifier.
\<close>

datatype event =
    Create string "string option"
  | Publish string
  | Sleep nat
  | StatusUpdate string "string option"

text \<open>
  The state threaded through a run: the events so far, the number of requests of each
  kind so far, and the cells of the worksheet (row, column; both counted from 1).
\<close>

record state =
  trace :: "event list"
  n_create :: nat
  n_publish :: nat
  n_update :: nat
  cells :: "nat \<times> nat \<Rightarrow> string"

definition init :: "(nat \<times> nat \<Rightarrow> string) \<Rightarrow> state" where
  "init cs = \<lparr>trace = [], n_create = 0, n_publish = 0, n_update = 0, cells = cs\<rparr>"

subsection \<open>\<open>update_post_status\<close>\<close>

text \<open>\<open>headers.index(x)\<close>: the first position of \<open>x\<close>, \<open>None\<close> for the ValueError.\<close>

fun index_of :: "string list \<Rightarrow> string \<Rightarrow> nat option" where
  "index_of [] x = None"
| "index_of (h # hs) x = (if h = x then Some 0 else map_option Suc (index_of hs x))"

text \<open>The cell writes of a successful \<open>batch_update\<close>, in list order.\<close>

fun apply_updates :: "(nat \<times> nat \<times> string) list \<Rightarrow> (nat \<times> nat \<Rightarrow> string) \<Rightarrow> (nat \<times> nat \<Rightarrow> string)" where
  "apply_updates [] cs = cs"
| "apply_updates ((r, c, v) # us) cs = apply_updates us (cs((r, c) := v))"

text \<open>
  Every exception inside the function is caught and turned into the result \<open>False\<close>;
  the sheet changes only when \<open>batch_update\<close> returns.
\<close>

definition update_post_status ::
  "world \<Rightarrow> string \<Rightarrow> string \<Rightarrow> string option \<Rightarrow> state \<Rightarrow> bool \<times> state" where
  "update_post_status w post_id status threads_post_id s =
     (let a = sheet_resp w (n_update s);
          s1 = s\<lparr>trace := trace s @ [StatusUpdate status threads_post_id],
                 n_update := Suc (n_update s)\<rparr>
      in case find_res a of
           Raises \<Rightarrow> (False, s1)
         | Returns None \<Rightarrow> (False, s1)
         | Returns (Some row_index) \<Rightarrow>
             (case headers_res a of
                Raises \<Rightarrow> (False, s1)
              | Returns headers \<Rightarrow>
                  (case index_of headers ''Status'' of
                     None \<Rightarrow> (False, s1)
                   | Some k \<Rightarrow>
                       (let status_col_index = k + 1;
                            threads_post_id_col_index =
                              (if ''Threads_Post_ID'' \<in> set headers
                               then map_option (\<lambda>j. j + 1) (index_of headers ''Threads_Post_ID'')
                               else None);
                            updates =
                              [(row_index, status_col_index, status)] @
                              (case (threads_post_id, threads_post_id_col_index) of
                                 (Some t, Some c) \<Rightarrow> (if t \<noteq> [] then [(row_index, c, t)] else [])
                               | _ \<Rightarrow> [])
                        in if batch_raises a then (False, s1)
                           else (True, s1\<lparr>cells := apply_updates updates (cells s1)\<rparr>)))))"

subsection \<open>The two platform requests\<close>

text \<open>
  The identifier a request function hands back for a reply: the \<open>id\<close> field when it is
  present and not empty, \<open>None\<close> otherwise and when the request raised.
\<close>

fun resp_id :: "api_response \<Rightarrow> string option" where
  "resp_id RequestError = None"
| "resp_id (Json None) = None"
| "resp_id (Json (Some i)) = (if i \<noteq> [] then Some i else None)"

text \<open>\<open>reply_to_id\<close> enters the payload only when it is true.\<close>

definition create_media_container ::
  "world \<Rightarrow> string \<Rightarrow> string option \<Rightarrow> state \<Rightarrow> string option \<times> state" where
  "create_media_container w text_content reply_to_id s =
     (let payload_reply = (if truthy reply_to_id then reply_to_id else None)
      in (resp_id (create_resp w (n_create s)),
          s\<lparr>trace := trace s @ [Create text_content payload_reply],
            n_create := Suc (n_create s)\<rparr>))"

definition publish_media_container ::
  "world \<Rightarrow> string \<Rightarrow> state \<Rightarrow> string option \<times> state" where
  "publish_media_container w creation_id s =
     (resp_id (publish_resp w (n_publish s)),
      s\<lparr>trace := trace s @ [Publish creation_id],
        n_publish := Suc (n_publish s)\<rparr>)"

definition sleep :: "nat \<Rightarrow> state \<Rightarrow> state" where
  "sleep d s = s\<lparr>trace := trace s @ [Sleep d]\<rparr>"

subsection \<open>The main program, from the extraction of the blocks on\<close>

text \<open>
  The program reaches this part with the row \<open>post_data\<close> it found in the sheet; every
  earlier failure (arguments, credentials, opening the sheet, finding the row) has left
  through \<open>sys.exit(1)\<close> before any status is written or any request is made. The row
  is a dictionary from column names to cell texts, and \<open>post_data.get(key, "")\<close> is
  \<open>get_cell\<close>.
\<close>

definition get_cell :: "(string \<rightharpoonup> string) \<Rightarrow> string \<Rightarrow> string" where
  "get_cell post_data key = (case post_data key of None \<Rightarrow> [] | Some v \<Rightarrow> v)"

definition block_keys :: "string list" where
  "block_keys = [''Block_1_Content'', ''Block_2_Content'', ''Block_3_Content'', ''Block_4_Content'']"

definition extract_blocks :: "(string \<rightharpoonup> string) \<Rightarrow> string list" where
  "extract_blocks post_data =
     filter (\<lambda>block. block \<noteq> []) (map (\<lambda>key. strip (get_cell post_data key)) block_keys)"

text \<open>
  The loop over \<open>enumerate(post_blocks_arg)\<close>. It either runs to its end, with the
  value of \<open>root_post_id\<close>, or leaves the program through \<open>sys.exit(1)\<close>.
\<close>

datatype loop_result = Completed "string option" | Exited nat

fun post_chain ::
  "world \<Rightarrow> string \<Rightarrow> string option \<Rightarrow> string option \<Rightarrow> (nat \<times> string) list \<Rightarrow> state
   \<Rightarrow> loop_result \<times> state" where
  "post_chain w sheet_post_id last_post_id root_post_id [] s = (Completed root_post_id, s)"
| "post_chain w sheet_post_id last_post_id root_post_id ((i, block_content) # rest) s =
     (let current_reply_to_id = last_post_id;
          (container_id, s1) = create_media_container w block_content current_reply_to_id s
      in if truthy container_id then
           (let publish_delay = (if i = 0 then 30 else 10);
                s2 = sleep publish_delay s1;
                (published_post_id, s3) = publish_media_container w (the container_id) s2
            in if truthy published_post_id then
                 post_chain w sheet_post_id published_post_id
                   (if i = 0 then published_post_id else root_post_id) rest s3
               else (Exited 1, snd (update_post_status w sheet_post_id ''Error'' None s3)))
         else (Exited 1, snd (update_post_status w sheet_post_id ''Error'' None s1)))"

text \<open>The JSON object printed on success.\<close>

record output_data =
  threads_post_id :: string
  account_name :: string
  full_post_content :: string

record run_result =
  exit_code :: nat
  printed :: "output_data option"
  final :: state

definition publisher_main ::
  "world \<Rightarrow> string \<Rightarrow> string \<Rightarrow> (string \<rightharpoonup> string) \<Rightarrow> state \<Rightarrow> run_result" where
  "publisher_main w account_name_arg sheet_post_id_arg post_data s =
     (let post_blocks_arg = extract_blocks post_data
      in if post_blocks_arg = [] then
           \<lparr>exit_code = 1, printed = None,
            final = snd (update_post_status w sheet_post_id_arg ''Error'' None s)\<rparr>
         else
           (let full_post_content_for_logging = join [CHR 0x0A, CHR 0x0A] post_blocks_arg;
                s1 = snd (update_post_status w sheet_post_id_arg ''Posting'' None s)
            in case post_chain w sheet_post_id_arg None None (enumerate 0 post_blocks_arg) s1 of
                 (Exited c, s2) \<Rightarrow> \<lparr>exit_code = c, printed = None, final = s2\<rparr>
               | (Completed root_post_id, s2) \<Rightarrow>
                   (if truthy root_post_id then
                      \<lparr>exit_code = 0,
                       printed = Some \<lparr>threads_post_id = the root_post_id,
                                       account_name = account_name_arg,
                                       full_post_content = full_post_content_for_logging\<rparr>,
                       final = snd (update_post_status w sheet_post_id_arg ''Posted'' root_post_id s2)\<rparr>
                    else \<lparr>exit_code = 1, printed = None, final = s2\<rparr>)))"

subsection \<open>Reading a trace\<close>

text \<open>
  The events of one block whose container is created and published, given the
  container identifiers \<open>c\<close> and the published identifiers \<open>p\<close> by block index.
\<close>

definition block_events :: "(nat \<Rightarrow> string) \<Rightarrow> (nat \<Rightarrow> string) \<Rightarrow> nat \<times> string \<Rightarrow> event list" where
  "block_events c p = (\<lambda>(j, b).
     [Create b (if j = 0 then None else Some (p (j - 1))),
      Sleep (if j = 0 then 30 else 10),
      Publish (c j)])"

text \<open>The state after the blocks \<open>bs\<close> have all been created and published.\<close>

definition after_blocks ::
  "(nat \<Rightarrow> string) \<Rightarrow> (nat \<Rightarrow> string) \<Rightarrow> string list \<Rightarrow> state \<Rightarrow> state" where
  "after_blocks c p bs s =
     s\<lparr>trace := trace s @ concat (map (block_events c p) (enumerate 0 bs)),
       n_create := length bs, n_publish := length bs\<rparr>"

text \<open>The platform requests of a trace, the texts it sent, and the statuses it asked to write.\<close>

fun is_request :: "event \<Rightarrow> bool" where
  "is_request (Create b r) = True"
| "is_request (Publish c) = True"
| "is_request (Sleep d) = False"
| "is_request (StatusUpdate st t) = False"

fun created_texts :: "event list \<Rightarrow> string list" where
  "created_texts [] = []"
| "created_texts (Create b r # es) = b # created_texts es"
| "created_texts (e # es) = created_texts es"

fun status_writes :: "event list \<Rightarrow> string list" where
  "status_writes [] = []"
| "status_writes (StatusUpdate st t # es) = st # status_writes es"
| "status_writes (e # es) = status_writes es"

text \<open>Some call of the spreadsheet library fails during a status update.\<close>

definition update_fails :: "sheet_answers \<Rightarrow> bool" where
  "update_fails a =
     (case find_res a of
        Raises \<Rightarrow> True
      | Returns None \<Rightarrow> True
      | Returns (Some row_index) \<Rightarrow>
          (case headers_res a of
             Raises \<Rightarrow> True
           | Returns headers \<Rightarrow> index_of headers ''Status'' = None \<or> batch_raises a))"

section \<open>The Insight Logger: \<open>log_insights.py\<close>\<close>

subsection \<open>The insights response\<close>

text \<open>
  One entry of the \<open>data\<close> list of the response: its \<open>name\<close>, its \<open>values\<close> list
  (the field \<open>values_field\<close>; each sample a dictionary whose \<open>value\<close> may be
  missing) and its \<open>total_value\<close> dictionary
  (whose \<open>value\<close> may be missing). Every key may be absent.
\<close>

record metric_data =
  name :: "string option"
  values_field :: "int option list option"
  total_value :: "int option option"

text \<open>
  The GET either fails inside the \<open>try\<close> (request error, HTTP error status, a body of
  another shape), or yields a JSON object with or without the key \<open>data\<close>.
\<close>

datatype insights_response = FetchError | Body "metric_data list option"

text \<open>\<open>d.get("value", 0)\<close> on a dictionary given by its optional \<open>value\<close>.\<close>

definition value_or_0 :: "int option \<Rightarrow> int" where
  "value_or_0 v = (case v of None \<Rightarrow> 0 | Some x \<Rightarrow> x)"

text \<open>\<open>"values" in metric_data and metric_data["values"]\<close>: present and not empty.\<close>

definition has_values :: "metric_data \<Rightarrow> bool" where
  "has_values md = (case values_field md of None \<Rightarrow> False | Some vs \<Rightarrow> vs \<noteq> [])"

text \<open>
  The dictionary \<open>parsed_insights\<close> is an association list; an assignment replaces the
  entry of the key or adds one. One round of the loop over the entries:
\<close>

definition parse_metric :: "metric_data \<Rightarrow> (string \<times> int) list \<Rightarrow> (string \<times> int) list" where
  "parse_metric md parsed_insights =
     (if name md = Some ''views'' \<and> has_values md then
        AList.update ''views'' (value_or_0 (last (the (values_field md)))) parsed_insights
      else if name md \<in> {Some ''likes'', Some ''replies''} \<and> total_value md \<noteq> None then
        AList.update (the (name md)) (value_or_0 (the (total_value md))) parsed_insights
      else if name md \<in> {Some ''likes'', Some ''replies''} \<and> has_values md then
        AList.update (the (name md)) (sum_list (map value_or_0 (the (values_field md)))) parsed_insights
      else parsed_insights)"

definition get_post_insights :: "insights_response \<Rightarrow> (string \<times> int) list option" where
  "get_post_insights resp =
     (case resp of
        FetchError \<Rightarrow> None
      | Body None \<Rightarrow> Some []
      | Body (Some entries) \<Rightarrow> Some (foldl (\<lambda>parsed md. parse_metric md parsed) [] entries))"

text \<open>\<open>insights.get(key, 0)\<close>.\<close>

definition insights_get :: "(string \<times> int) list \<Rightarrow> string \<Rightarrow> int" where
  "insights_get insights key = (case map_of insights key of None \<Rightarrow> 0 | Some v \<Rightarrow> v)"

subsection \<open>Date and time\<close>

text \<open>
  The value of \<open>datetime.datetime.now()\<close>, and \<open>strftime\<close> for the two formats the
  script uses, \<open>%Y-%m-%d\<close> and \<open>%H:%M:%S\<close> (years of four digits).
\<close>

record timestamp =
  year :: nat
  month :: nat
  day :: nat
  hour :: nat
  minute :: nat
  second :: nat

definition digit :: "nat \<Rightarrow> char" where
  "digit n = ''0123456789'' ! (n mod 10)"

definition pad2 :: "nat \<Rightarrow> string" where
  "pad2 n = [digit (n div 10), digit n]"

definition pad4 :: "nat \<Rightarrow> string" where
  "pad4 n = [digit (n div 1000), digit (n div 100), digit (n div 10), digit n]"

definition strftime_date :: "timestamp \<Rightarrow> string" where
  "strftime_date t = pad4 (year t) @ ''-'' @ pad2 (month t) @ ''-'' @ pad2 (day t)"

definition strftime_time :: "timestamp \<Rightarrow> string" where
  "strftime_time t = pad2 (hour t) @ '':'' @ pad2 (minute t) @ '':'' @ pad2 (second t)"

subsection \<open>The log sheet and the main program\<close>

datatype cell = Txt string | Num int

text \<open>
  \<open>sheet.worksheet(name)\<close> finds the worksheet, raises WorksheetNotFound, or raises
  something else.
\<close>

datatype lookup = WsFound | WsNotFound | WsError

text \<open>
  The world of one run: the insights response, the clock (the value of the n-th call
  of \<open>now()\<close>), whether authentication and opening the spreadsheet succeed, the worksheet
  lookup, whether creating the worksheet with its header row raises, and whether
  \<open>append_row\<close> of the data row raises.
\<close>

record logger_world =
  insights_resp :: insights_response
  clock :: "nat \<Rightarrow> timestamp"
  auth_ok :: bool
  open_ok :: bool
  worksheet_lookup :: lookup
  create_raises :: bool
  append_raises :: bool

text \<open>The rows appended to the log worksheet so far, and the number of clock readings.\<close>

record logger_state =
  rows :: "cell list list"
  clock_reads :: nat

definition logger_init :: logger_state where
  "logger_init = \<lparr>rows = [], clock_reads = 0\<rparr>"

definition header_row :: "cell list" where
  "header_row = map Txt [''Post_ID'', ''Account'', ''Post_Content'', ''Views'', ''Likes'',
                         ''Replies'', ''Date_Posted'', ''Time_Posted'']"

text \<open>
  \<open>get_or_create_worksheet\<close>: the result is whether a worksheet is handed back. An
  exception raised while the worksheet is created leaves the function, because it is
  raised inside the handler of WorksheetNotFound.
\<close>

definition get_or_create_worksheet :: "logger_world \<Rightarrow> logger_state \<Rightarrow> bool outcome \<times> logger_state" where
  "get_or_create_worksheet w s =
     (case worksheet_lookup w of
        WsFound \<Rightarrow> (Returns True, s)
      | WsNotFound \<Rightarrow>
          (if create_raises w then (Raises, s)
           else (Returns True, s\<lparr>rows := rows s @ [header_row]\<rparr>))
      | WsError \<Rightarrow> (Returns False, s))"

text \<open>\<open>log_to_google_sheet\<close> catches the exception of \<open>append_row\<close> and returns nothing.\<close>

definition log_to_google_sheet :: "logger_world \<Rightarrow> cell list \<Rightarrow> logger_state \<Rightarrow> logger_state" where
  "log_to_google_sheet w data_row s =
     (if append_raises w then s else s\<lparr>rows := rows s @ [data_row]\<rparr>)"

text \<open>
  The main program after the checks of the arguments and of the access token. The
  result is the exit code and the final state; an exception nobody catches ends the
  process with exit code 1.
\<close>

definition logger_main ::
  "logger_world \<Rightarrow> string \<Rightarrow> string \<Rightarrow> string \<Rightarrow> logger_state \<Rightarrow> nat \<times> logger_state" where
  "logger_main w account_name_arg post_id_arg post_content_arg s =
     (case get_post_insights (insights_resp w) of
        None \<Rightarrow> (1, s)
      | Some insights \<Rightarrow>
          (if insights = [] then (1, s)
           else
             (let now = clock w (clock_reads s);
                  s1 = s\<lparr>clock_reads := Suc (clock_reads s)\<rparr>;
                  date_posted = strftime_date now;
                  time_posted = strftime_time now;
                  data_row =
                    [Txt post_id_arg, Txt account_name_arg, Txt post_content_arg,
                     Num (insights_get insights ''views''),
                     Num (insights_get insights ''likes''),
                     Num (insights_get insights ''replies''),
                     Txt date_posted, Txt time_posted]
              in if auth_ok w then
                   (if open_ok w then
                      (case get_or_create_worksheet w s1 of
                         (Raises, s2) \<Rightarrow> (1, s2)
                       | (Returns False, s2) \<Rightarrow> (1, s2)
                       | (Returns True, s2) \<Rightarrow> (0, log_to_google_sheet w data_row s2))
                    else (1, s1))
                 else (1, s1))))"

subsection \<open>Reading the parse loop\<close>

text \<open>
  The assignment to \<open>parsed_insights\<close> that one round of the loop makes, if any, and
  the loop from a given dictionary.
\<close>

definition assignment :: "metric_data \<Rightarrow> (string \<times> int) option" where
  "assignment md =
     (if name md = Some ''views'' \<and> has_values md then
        Some (''views'', value_or_0 (last (the (values_field md))))
      else if name md \<in> {Some ''likes'', Some ''replies''} \<and> total_value md \<noteq> None then
        Some (the (name md), value_or_0 (the (total_value md)))
      else if name md \<in> {Some ''likes'', Some ''replies''} \<and> has_values md then
        Some (the (name md), sum_list (map value_or_0 (the (values_field md))))
      else None)"

definition parse_entries :: "metric_data list \<Rightarrow> (string \<times> int) list \<Rightarrow> (string \<times> int) list" where
  "parse_entries entries acc = foldl (\<lambda>parsed md. parse_metric md parsed) acc entries"

section \<open>Example inputs\<close>

text \<open>
  A row with two non-empty blocks, one blank block and one missing block; a worksheet
  whose row 2 holds the post and whose header row is Post_ID, Status, Threads_Post_ID;
  a platform that answers every request with a fresh identifier.
\<close>

definition example_row :: "string \<rightharpoonup> string" where
  "example_row = [''Post_ID'' \<mapsto> ''7'', ''Block_1_Content'' \<mapsto> '' first '',
                  ''Block_2_Content'' \<mapsto> ''  '', ''Block_3_Content'' \<mapsto> ''second'',
                  ''Status'' \<mapsto> ''Ready'']"

definition example_cells :: "nat \<times> nat \<Rightarrow> string" where
  "example_cells = (\<lambda>rc. [])((2, 2) := ''Ready'')"

definition good_sheet :: sheet_answers where
  "good_sheet = \<lparr>find_res = Returns (Some 2),
                 headers_res = Returns [''Post_ID'', ''Status'', ''Threads_Post_ID''],
                 batch_raises = False\<rparr>"

definition container_ids :: "nat \<Rightarrow> string" where
  "container_ids j = (if j = 0 then ''c0'' else ''c1'')"

definition published_ids :: "nat \<Rightarrow> string" where
  "published_ids j = (if j = 0 then ''p0'' else ''p1'')"

definition world_ok :: world where
  "world_ok = \<lparr>create_resp = (\<lambda>n. Json (Some (container_ids n))),
               publish_resp = (\<lambda>n. Json (Some (published_ids n))),
               sheet_resp = (\<lambda>n. good_sheet)\<rparr>"

text \<open>
  A row whose blocks are all blank; a spreadsheet on which every call raises; a platform
  whose second publication fails; a platform that is down, with a spreadsheet that
  answers the first status update only, or with one that never answers; the healthy
  platform with the broken spreadsheet.
\<close>

definition blank_row :: "string \<rightharpoonup> string" where
  "blank_row = [''Post_ID'' \<mapsto> ''8'', ''Block_1_Content'' \<mapsto> ''   '',
                ''Block_2_Content'' \<mapsto> [], ''Status'' \<mapsto> ''Ready'']"

definition broken_sheet :: sheet_answers where
  "broken_sheet = \<lparr>find_res = Raises, headers_res = Raises, batch_raises = True\<rparr>"

definition world_publish_fails :: world where
  "world_publish_fails =
     \<lparr>create_resp = (\<lambda>n. Json (Some (container_ids n))),
      publish_resp = (\<lambda>n. if n = 0 then Json (Some ''p0'') else RequestError),
      sheet_resp = (\<lambda>n. good_sheet)\<rparr>"

definition world_stuck :: world where
  "world_stuck =
     \<lparr>create_resp = (\<lambda>n. RequestError),
      publish_resp = (\<lambda>n. RequestError),
      sheet_resp = (\<lambda>n. if n = 0 then good_sheet else broken_sheet)\<rparr>"

definition world_no_sheet :: world where
  "world_no_sheet =
     \<lparr>create_resp = (\<lambda>n. Json (Some (container_ids n))),
      publish_resp = (\<lambda>n. Json (Some (published_ids n))),
      sheet_resp = (\<lambda>n. broken_sheet)\<rparr>"

definition world_down :: world where
  "world_down =
     \<lparr>create_resp = (\<lambda>n. RequestError),
      publish_resp = (\<lambda>n. RequestError),
      sheet_resp = (\<lambda>n. broken_sheet)\<rparr>"

text \<open>
  The insights response of the example in the specification, a response that reports
  likes as a time series, a clock, and the worlds of the Insight Logger in which
  everything works and in which only the append fails.
\<close>

definition views_entry :: metric_data where
  "views_entry = \<lparr>name = Some ''views'', values_field = Some [Some 5, Some 12], total_value = None\<rparr>"

definition likes_entry :: metric_data where
  "likes_entry = \<lparr>name = Some ''likes'', values_field = None, total_value = Some (Some 3)\<rparr>"

definition example_response :: insights_response where
  "example_response = Body (Some [views_entry, likes_entry])"

definition likes_series_response :: insights_response where
  "likes_series_response =
     Body (Some [\<lparr>name = Some ''likes'', values_field = Some [Some 5, Some 12], total_value = None\<rparr>])"

definition example_time :: timestamp where
  "example_time = \<lparr>year = 2026, month = 3, day = 7, hour = 9, minute = 5, second = 59\<rparr>"

definition logger_world_ok :: logger_world where
  "logger_world_ok =
     \<lparr>insights_resp = example_response,
      clock = (\<lambda>n. example_time\<lparr>minute := 5 + n\<rparr>),
      auth_ok = True, open_ok = True, worksheet_lookup = WsFound,
      create_raises = False, append_raises = False\<rparr>"

definition logger_world_append_fails :: logger_world where
  "logger_world_append_fails = logger_world_ok\<lparr>append_raises := True\<rparr>"

section \<open>Facts about the Publisher\<close>

subsection \<open>What each step does to the state\<close>


lemma ups_trace [simp]: "trace (snd (update_post_status w p st t s)) = trace s @ [StatusUpdate st t]"
  by (simp add: update_post_status_def Let_def split: outcome.splits option.splits prod.splits)
lemma ups_n_create [simp]: "n_create (snd (update_post_status w p st t s)) = n_create s"
  by (simp add: update_post_status_def Let_def split: outcome.splits option.splits prod.splits)
lemma ups_n_publish [simp]: "n_publish (snd (update_post_status w p st t s)) = n_publish s"
  by (simp add: update_post_status_def Let_def split: outcome.splits option.splits prod.splits)
lemma ups_n_update [simp]: "n_update (snd (update_post_status w p st t s)) = Suc (n_update s)"
  by (simp add: update_post_status_def Let_def split: outcome.splits option.splits prod.splits)

lemma resp_id_nonempty: "resp_id r = Some x \<Longrightarrow> x \<noteq> []"
  by (cases r rule: resp_id.cases) (auto split: if_splits)

lemma truthy_resp_id [simp]: "truthy (resp_id r) = (resp_id r \<noteq> None)"
  by (cases r rule: resp_id.cases) auto

lemma post_chain_prefix:
  assumes "n_create s = i" "n_publish s = i"
    and "lst = (if i = 0 then None else Some (p (i - 1)))"
    and "0 < i \<longrightarrow> root = Some (p 0) \<and> p (i - 1) \<noteq> []"
    and "\<forall>j<length pre. resp_id (create_resp w (i + j)) = Some (c (i + j))
                      \<and> resp_id (publish_resp w (i + j)) = Some (p (i + j))"
  shows "post_chain w pid lst root (enumerate i (pre @ rest)) s =
         post_chain w pid
           (if i + length pre = 0 then None else Some (p (i + length pre - 1)))
           (if pre = [] then root else Some (p 0))
           (enumerate (i + length pre) rest)
           (s\<lparr>trace := trace s @ concat (map (block_events c p) (enumerate i pre)),
              n_create := i + length pre, n_publish := i + length pre\<rparr>)"
  using assms
proof (induction pre arbitrary: i lst root s)
  case Nil
  have "s\<lparr>trace := trace s @ concat (map (block_events c p) (enumerate i [])),
           n_create := i + length ([]::string list), n_publish := i + length ([]::string list)\<rparr> = s"
    using Nil.prems(1,2) by (cases s) simp
  then show ?case using Nil.prems(3) by simp
next
  case (Cons b pre)
  have c0: "resp_id (create_resp w i) = Some (c i)" and p0: "resp_id (publish_resp w i) = Some (p i)"
    using Cons.prems(5) by force+
  have pne: "p i \<noteq> []" "c i \<noteq> []" using c0 p0 resp_id_nonempty by blast+
  define s3 where "s3 = s\<lparr>trace := trace s @ block_events c p (i, b), n_create := Suc i, n_publish := Suc i\<rparr>"
  have lst_pay: "(if truthy lst then lst else None) = (if i = 0 then None else Some (p (i - 1)))"
    using Cons.prems(3,4) by (cases "i = 0") auto
  have step: "post_chain w pid lst root (enumerate i ((b # pre) @ rest)) s =
        post_chain w pid (Some (p i)) (if i = 0 then Some (p i) else root) (enumerate (Suc i) (pre @ rest)) s3"
    using c0 p0 pne Cons.prems(1,2) lst_pay
    by (cases s; cases "i = 0";
        simp add: create_media_container_def publish_media_container_def sleep_def Let_def s3_def block_events_def)
  have ih: "post_chain w pid (Some (p i)) (if i = 0 then Some (p i) else root) (enumerate (Suc i) (pre @ rest)) s3
     = post_chain w pid
           (if Suc i + length pre = 0 then None else Some (p (Suc i + length pre - 1)))
           (if pre = [] then (if i = 0 then Some (p i) else root) else Some (p 0))
           (enumerate (Suc i + length pre) rest)
           (s3\<lparr>trace := trace s3 @ concat (map (block_events c p) (enumerate (Suc i) pre)),
              n_create := Suc i + length pre, n_publish := Suc i + length pre\<rparr>)"
  proof (rule Cons.IH)
    show "\<forall>j<length pre. resp_id (create_resp w (Suc i + j)) = Some (c (Suc i + j))
                      \<and> resp_id (publish_resp w (Suc i + j)) = Some (p (Suc i + j))"
      using Cons.prems(5) by fastforce
  qed (use Cons.prems(4) in \<open>auto simp: s3_def pne\<close>)
  have root_eq: "(if pre = [] then (if i = 0 then Some (p i) else root) else Some (p 0)) = Some (p 0)"
    using Cons.prems(4) by auto
  show ?case
    unfolding step ih root_eq by (simp add: s3_def)
qed



lemma post_chain_all_ok:
  assumes "n_create s = 0" "n_publish s = 0"
    and "\<forall>j<length bs. resp_id (create_resp w j) = Some (c j)
                      \<and> resp_id (publish_resp w j) = Some (p j)"
  shows "post_chain w pid None None (enumerate 0 (bs @ rest)) s =
         post_chain w pid
           (if bs = [] then None else Some (p (length bs - 1)))
           (if bs = [] then None else Some (p 0))
           (enumerate (length bs) rest) (after_blocks c p bs s)"
  using post_chain_prefix [of s 0 None p None bs w c pid rest] assms
  by (simp add: after_blocks_def)

lemma main_success:
  assumes "extract_blocks post_data = bs" "bs \<noteq> []"
    and "n_create s = 0" "n_publish s = 0"
    and "\<forall>j<length bs. resp_id (create_resp w j) = Some (c j)
                      \<and> resp_id (publish_resp w j) = Some (p j)"
  shows "publisher_main w acct pid post_data s =
         \<lparr>exit_code = 0,
          printed = Some \<lparr>threads_post_id = p 0, account_name = acct,
                          full_post_content = join [CHR 0x0A, CHR 0x0A] bs\<rparr>,
          final = snd (update_post_status w pid ''Posted'' (Some (p 0))
                    (after_blocks c p bs (snd (update_post_status w pid ''Posting'' None s))))\<rparr>"
proof -
  let ?s1 = "snd (update_post_status w pid ''Posting'' None s)"
  have "resp_id (publish_resp w 0) = Some (p 0)" using assms(2,5) by (cases bs) auto
  then have p0: "p 0 \<noteq> []" by (rule resp_id_nonempty)
  have "post_chain w pid None None (enumerate 0 bs) ?s1 =
        (Completed (Some (p 0)), after_blocks c p bs ?s1)"
    using post_chain_all_ok [of ?s1 bs w c p pid "[]"] assms(2,3,4,5) by simp
  then show ?thesis
    using assms(1,2) p0 by (simp add: publisher_main_def Let_def)
qed


lemma post_chain_stops:
  assumes "k < length bs" "n_create s = 0" "n_publish s = 0"
    and "\<forall>j<k. resp_id (create_resp w j) = Some (c j)
               \<and> resp_id (publish_resp w j) = Some (p j)"
  shows "post_chain w pid None None (enumerate 0 bs) s =
         post_chain w pid
           (if k = 0 then None else Some (p (k - 1)))
           (if k = 0 then None else Some (p 0))
           ((k, bs ! k) # enumerate (Suc k) (drop (Suc k) bs)) (after_blocks c p (take k bs) s)"
proof -
  have "post_chain w pid None None (enumerate 0 (take k bs @ bs ! k # drop (Suc k) bs)) s =
         post_chain w pid
           (if take k bs = [] then None else Some (p (length (take k bs) - 1)))
           (if take k bs = [] then None else Some (p 0))
           (enumerate (length (take k bs)) (bs ! k # drop (Suc k) bs)) (after_blocks c p (take k bs) s)"
    by (rule post_chain_all_ok) (use assms in auto)
  moreover have "take k bs @ bs ! k # drop (Suc k) bs = bs"
    using assms(1) by (simp add: id_take_nth_drop [symmetric])
  moreover have "length (take k bs) = k" "(take k bs = []) = (k = 0)" using assms(1) by auto
  ultimately show ?thesis by (simp del: post_chain.simps)
qed


lemma fst_create [simp]:
  "fst (create_media_container w b r s) = resp_id (create_resp w (n_create s))"
  by (simp add: create_media_container_def Let_def)

lemma fst_publish [simp]:
  "fst (publish_media_container w cid s) = resp_id (publish_resp w (n_publish s))"
  by (simp add: publish_media_container_def)

lemma create_fields [simp]:
  "trace (snd (create_media_container w b r s)) = trace s @ [Create b (if truthy r then r else None)]"
  "n_create (snd (create_media_container w b r s)) = Suc (n_create s)"
  "n_publish (snd (create_media_container w b r s)) = n_publish s"
  "n_update (snd (create_media_container w b r s)) = n_update s"
  "cells (snd (create_media_container w b r s)) = cells s"
  by (simp_all add: create_media_container_def Let_def)

lemma publish_fields [simp]:
  "trace (snd (publish_media_container w cid s)) = trace s @ [Publish cid]"
  "n_create (snd (publish_media_container w cid s)) = n_create s"
  "n_publish (snd (publish_media_container w cid s)) = Suc (n_publish s)"
  "n_update (snd (publish_media_container w cid s)) = n_update s"
  "cells (snd (publish_media_container w cid s)) = cells s"
  by (simp_all add: publish_media_container_def)

lemma sleep_fields [simp]:
  "trace (sleep d s) = trace s @ [Sleep d]"
  "n_create (sleep d s) = n_create s"
  "n_publish (sleep d s) = n_publish s"
  "n_update (sleep d s) = n_update s"
  "cells (sleep d s) = cells s"
  by (simp_all add: sleep_def)

lemma after_blocks_fields [simp]:
  "trace (after_blocks c p bs s) = trace s @ concat (map (block_events c p) (enumerate 0 bs))"
  "n_create (after_blocks c p bs s) = length bs"
  "n_publish (after_blocks c p bs s) = length bs"
  "n_update (after_blocks c p bs s) = n_update s"
  "cells (after_blocks c p bs s) = cells s"
  by (simp_all add: after_blocks_def)

lemma post_chain_step:
  "post_chain w pid lst root ((i, b) # rest) s =
     (if resp_id (create_resp w (n_create s)) = None
      then (Exited 1, snd (update_post_status w pid ''Error'' None
                             (snd (create_media_container w b lst s))))
      else if resp_id (publish_resp w (n_publish s)) = None
      then (Exited 1, snd (update_post_status w pid ''Error'' None
                             (snd (publish_media_container w (the (resp_id (create_resp w (n_create s))))
                                (sleep (if i = 0 then 30 else 10)
                                   (snd (create_media_container w b lst s)))))))
      else post_chain w pid (resp_id (publish_resp w (n_publish s)))
             (if i = 0 then resp_id (publish_resp w (n_publish s)) else root) rest
             (snd (publish_media_container w (the (resp_id (create_resp w (n_create s))))
                                (sleep (if i = 0 then 30 else 10)
                                   (snd (create_media_container w b lst s))))))"
  by (simp add: case_prod_beta Let_def)

lemma main_create_fails:
  assumes "extract_blocks post_data = bs" "k < length bs"
    and "n_create s = 0" "n_publish s = 0"
    and "\<forall>j<k. resp_id (create_resp w j) = Some (c j)
               \<and> resp_id (publish_resp w j) = Some (p j)"
    and "resp_id (create_resp w k) = None"
  shows "publisher_main w acct pid post_data s =
         \<lparr>exit_code = 1, printed = None,
          final = snd (update_post_status w pid ''Error'' None
                    (snd (create_media_container w (bs ! k) (if k = 0 then None else Some (p (k - 1)))
                       (after_blocks c p (take k bs)
                          (snd (update_post_status w pid ''Posting'' None s))))))\<rparr>"
proof -
  let ?s1 = "snd (update_post_status w pid ''Posting'' None s)"
  let ?sk = "after_blocks c p (take k bs) ?s1"
  have ne: "bs \<noteq> []" using assms(2) by auto
  have "post_chain w pid None None (enumerate 0 bs) ?s1 =
         post_chain w pid (if k = 0 then None else Some (p (k - 1))) (if k = 0 then None else Some (p 0))
           ((k, bs ! k) # enumerate (Suc k) (drop (Suc k) bs)) ?sk"
    by (rule post_chain_stops) (use assms in auto)
  also have "\<dots> = (Exited 1, snd (update_post_status w pid ''Error'' None
                    (snd (create_media_container w (bs ! k) (if k = 0 then None else Some (p (k - 1))) ?sk))))"
    using assms(2,6) by (subst post_chain_step) simp
  finally show ?thesis
    using assms(1) ne by (simp add: publisher_main_def Let_def)
qed

lemma main_publish_fails:
  assumes "extract_blocks post_data = bs" "k < length bs"
    and "n_create s = 0" "n_publish s = 0"
    and "\<forall>j<k. resp_id (create_resp w j) = Some (c j)
               \<and> resp_id (publish_resp w j) = Some (p j)"
    and "resp_id (create_resp w k) = Some ck"
    and "resp_id (publish_resp w k) = None"
  shows "publisher_main w acct pid post_data s =
         \<lparr>exit_code = 1, printed = None,
          final = snd (update_post_status w pid ''Error'' None
                    (snd (publish_media_container w ck
                       (sleep (if k = 0 then 30 else 10)
                          (snd (create_media_container w (bs ! k) (if k = 0 then None else Some (p (k - 1)))
                             (after_blocks c p (take k bs)
                                (snd (update_post_status w pid ''Posting'' None s)))))))))\<rparr>"
proof -
  let ?s1 = "snd (update_post_status w pid ''Posting'' None s)"
  let ?sk = "after_blocks c p (take k bs) ?s1"
  have ne: "bs \<noteq> []" using assms(2) by auto
  have "post_chain w pid None None (enumerate 0 bs) ?s1 =
         post_chain w pid (if k = 0 then None else Some (p (k - 1))) (if k = 0 then None else Some (p 0))
           ((k, bs ! k) # enumerate (Suc k) (drop (Suc k) bs)) ?sk"
    by (rule post_chain_stops) (use assms in auto)
  also have "\<dots> = (Exited 1, snd (update_post_status w pid ''Error'' None
                    (snd (publish_media_container w ck
                       (sleep (if k = 0 then 30 else 10)
                          (snd (create_media_container w (bs ! k) (if k = 0 then None else Some (p (k - 1))) ?sk)))))))"
    using assms(2,6,7) by (subst post_chain_step) simp
  finally show ?thesis
    using assms(1) ne by (simp add: publisher_main_def Let_def)
qed

lemma first_failure:
  fixes ok :: "nat \<Rightarrow> bool"
  shows "(\<forall>j<n. ok j) \<or> (\<exists>k<n. (\<forall>j<k. ok j) \<and> \<not> ok k)"
proof (cases "\<forall>j<n. ok j")
  case True then show ?thesis by simp
next
  case False
  then obtain m where m: "m < n" "\<not> ok m" by auto
  define k where "k = (LEAST m. \<not> ok m)"
  have "\<not> ok k" unfolding k_def using m(2) by (rule LeastI)
  moreover have "k \<le> m" unfolding k_def using m(2) by (rule Least_le)
  moreover have "\<forall>j<k. ok j" unfolding k_def using not_less_Least by blast
  ultimately have "k < n \<and> (\<forall>j<k. ok j) \<and> \<not> ok k" using m(1) by simp
  then show ?thesis by blast
qed

lemma index_of_nth: "index_of hs x = Some i \<Longrightarrow> i < length hs \<and> hs ! i = x"
  by (induction hs arbitrary: i) (auto split: if_splits)

lemma index_of_None: "(index_of hs x = None) = (x \<notin> set hs)"
  by (induction hs) auto

lemma index_of_distinct:
  "index_of hs x = Some i \<Longrightarrow> index_of hs y = Some j \<Longrightarrow> x \<noteq> y \<Longrightarrow> i \<noteq> j"
  using index_of_nth by blast

lemma ups_fails:
  assumes "find_res (sheet_resp w (n_update s)) = Raises
         \<or> find_res (sheet_resp w (n_update s)) = Returns None
         \<or> headers_res (sheet_resp w (n_update s)) = Raises
         \<or> (\<exists>hs. headers_res (sheet_resp w (n_update s)) = Returns hs \<and> ''Status'' \<notin> set hs)
         \<or> batch_raises (sheet_resp w (n_update s))"
  shows "fst (update_post_status w pid st t s) = False"
    and "cells (snd (update_post_status w pid st t s)) = cells s"
  using assms
  by (auto simp: update_post_status_def Let_def index_of_None [symmetric]
           split: outcome.splits option.splits)

lemma ups_succeeds:
  assumes "find_res (sheet_resp w (n_update s)) = Returns (Some row)"
    and "headers_res (sheet_resp w (n_update s)) = Returns hs"
    and "index_of hs ''Status'' = Some k"
    and "\<not> batch_raises (sheet_resp w (n_update s))"
  shows "fst (update_post_status w pid st t s) = True"
    and "cells (snd (update_post_status w pid st t s)) (row, k + 1) = st"
    and "t = Some tid \<Longrightarrow> tid \<noteq> [] \<Longrightarrow> index_of hs ''Threads_Post_ID'' = Some tc \<Longrightarrow>
         cells (snd (update_post_status w pid st t s)) (row, tc + 1) = tid"
proof -
  show "fst (update_post_status w pid st t s) = True"
    using assms by (simp add: update_post_status_def Let_def split: option.splits)
  have ne: "\<And>tc. index_of hs ''Threads_Post_ID'' = Some tc \<Longrightarrow> tc \<noteq> k"
    using index_of_distinct [OF _ assms(3)] by fastforce
  show "cells (snd (update_post_status w pid st t s)) (row, k + 1) = st"
    using assms ne by (auto simp: update_post_status_def Let_def split: option.splits)
  show "t = Some tid \<Longrightarrow> tid \<noteq> [] \<Longrightarrow> index_of hs ''Threads_Post_ID'' = Some tc \<Longrightarrow>
         cells (snd (update_post_status w pid st t s)) (row, tc + 1) = tid"
    using assms index_of_None [of hs "''Threads_Post_ID''"]
    by (auto simp: update_post_status_def Let_def split: option.splits)
qed

lemma length_extract_blocks: "length (extract_blocks post_data) \<le> 4"
proof -
  have "length (extract_blocks post_data) \<le> length block_keys"
    unfolding extract_blocks_def by (metis length_filter_le length_map)
  then show ?thesis by (simp add: block_keys_def)
qed

lemma requests_of_blocks:
  "filter is_request (concat (map (block_events c p) ibs)) =
   concat (map (\<lambda>(j, b). [Create b (if j = 0 then None else Some (p (j - 1))), Publish (c j)]) ibs)"
  by (induction ibs) (auto simp: block_events_def)

lemma init_fields [simp]:
  "trace (init cs) = []" "n_create (init cs) = 0" "n_publish (init cs) = 0"
  "n_update (init cs) = 0" "cells (init cs) = cs"
  by (simp_all add: init_def)

lemma example_blocks: "extract_blocks example_row = [''first'', ''second'']"
  by (simp add: extract_blocks_def block_keys_def get_cell_def example_row_def strip_def is_space_def)

subsection \<open>A chain whose requests all succeed\<close>

text \<open>
  Claim C1. For a row with N non-empty blocks (1 \<le> N \<le> 4), if every creation and every
  publish request succeeds, with container identifiers \<open>c j\<close> and published identifiers
  \<open>p j\<close>, then the requests of the run are exactly Create, Publish for block 0, then for
  block 1, and so on in the order of the blocks (N of each); the creation request of
  block j carries the published identifier of block j - 1 as reply target and none for
  block 0; the last action is the status update to Posted with the published
  identifier of block 0, which is also the identifier printed and, when that update is
  carried out by the spreadsheet, the content of the Threads_Post_ID cell; the exit code
  is 0.
\<close>

theorem chain_success:
  assumes "extract_blocks post_data \<noteq> []"
    and "\<forall>j<length (extract_blocks post_data).
           resp_id (create_resp w j) = Some (c j) \<and> resp_id (publish_resp w j) = Some (p j)"
  shows "let bs = extract_blocks post_data;
             r = publisher_main w acct pid post_data (init cs)
         in 1 \<le> length bs \<and> length bs \<le> 4
          \<and> filter is_request (trace (final r)) =
              concat (map (\<lambda>(j, b). [Create b (if j = 0 then None else Some (p (j - 1))),
                                      Publish (c j)])
                          (enumerate 0 bs))
          \<and> n_create (final r) = length bs \<and> n_publish (final r) = length bs
          \<and> last (trace (final r)) = StatusUpdate ''Posted'' (Some (p 0))
          \<and> printed r = Some \<lparr>threads_post_id = p 0, account_name = acct,
                                full_post_content = join [CHR 0x0A, CHR 0x0A] bs\<rparr>
          \<and> exit_code r = 0
          \<and> (\<forall>row hs k tc.
                find_res (sheet_resp w 1) = Returns (Some row)
              \<and> headers_res (sheet_resp w 1) = Returns hs
              \<and> index_of hs ''Status'' = Some k
              \<and> index_of hs ''Threads_Post_ID'' = Some tc
              \<and> \<not> batch_raises (sheet_resp w 1)
              \<longrightarrow> cells (final r) (row, k + 1) = ''Posted''
                \<and> cells (final r) (row, tc + 1) = p 0)"
proof -
  define bs where "bs = extract_blocks post_data"
  define s1 where "s1 = snd (update_post_status w pid ''Posting'' None (init cs))"
  define s2 where "s2 = after_blocks c p bs s1"
  define r where "r = publisher_main w acct pid post_data (init cs)"
  have r: "r = \<lparr>exit_code = 0,
          printed = Some \<lparr>threads_post_id = p 0, account_name = acct,
                          full_post_content = join [CHR 0x0A, CHR 0x0A] bs\<rparr>,
          final = snd (update_post_status w pid ''Posted'' (Some (p 0)) s2)\<rparr>"
    unfolding r_def s2_def s1_def
    by (rule main_success) (use assms in \<open>simp_all add: bs_def\<close>)
  have "resp_id (publish_resp w 0) = Some (p 0)" using assms by (cases "extract_blocks post_data") auto
  then have p0: "p 0 \<noteq> []" by (rule resp_id_nonempty)
  have len: "1 \<le> length bs" "length bs \<le> 4"
    using assms(1) length_extract_blocks by (auto simp: bs_def Suc_le_eq)
  have tr: "trace (final r) = StatusUpdate ''Posting'' None #
              concat (map (block_events c p) (enumerate 0 bs)) @ [StatusUpdate ''Posted'' (Some (p 0))]"
    by (simp add: r s2_def s1_def)
  have req: "filter is_request (trace (final r)) =
              concat (map (\<lambda>(j, b). [Create b (if j = 0 then None else Some (p (j - 1))),
                                      Publish (c j)]) (enumerate 0 bs))"
    by (simp add: tr requests_of_blocks)
  have cnt: "n_create (final r) = length bs" "n_publish (final r) = length bs"
    by (simp_all add: r s2_def)
  have lst: "last (trace (final r)) = StatusUpdate ''Posted'' (Some (p 0))"
    by (simp add: tr)
  have nu: "n_update s2 = 1" by (simp add: s2_def s1_def)
  have sheet: "cells (final r) (row, k + 1) = ''Posted'' \<and> cells (final r) (row, tc + 1) = p 0"
    if "find_res (sheet_resp w 1) = Returns (Some row)"
       "headers_res (sheet_resp w 1) = Returns hs"
       "index_of hs ''Status'' = Some k"
       "index_of hs ''Threads_Post_ID'' = Some tc"
       "\<not> batch_raises (sheet_resp w 1)" for row hs k tc
  proof -
    have a: "find_res (sheet_resp w (n_update s2)) = Returns (Some row)"
      "headers_res (sheet_resp w (n_update s2)) = Returns hs"
      "\<not> batch_raises (sheet_resp w (n_update s2))"
      using that nu by simp_all
    show ?thesis
      using ups_succeeds(2) [OF a(1,2) that(3) a(3)]
            ups_succeeds(3) [OF a(1,2) that(3) a(3) refl p0 that(4)]
      by (simp add: r)
  qed
  show ?thesis
    unfolding Let_def bs_def [symmetric] r_def [symmetric]
    using len req cnt lst sheet by (simp add: r)
qed

theorem chain_success_witness:
  "extract_blocks example_row = [''first'', ''second'']
   \<and> resp_id (create_resp world_ok 0) = Some ''c0'' \<and> resp_id (publish_resp world_ok 0) = Some ''p0''
   \<and> resp_id (create_resp world_ok 1) = Some ''c1'' \<and> resp_id (publish_resp world_ok 1) = Some ''p1''
   \<and> (let r = publisher_main world_ok ''acct'' ''7'' example_row (init example_cells)
      in filter is_request (trace (final r)) =
           [Create ''first'' None, Publish ''c0'', Create ''second'' (Some ''p0''), Publish ''c1'']
       \<and> last (trace (final r)) = StatusUpdate ''Posted'' (Some ''p0'')
       \<and> exit_code r = 0
       \<and> cells (final r) (2, 2) = ''Posted'' \<and> cells (final r) (2, 3) = ''p0'')"
proof -
  have h1: "extract_blocks example_row \<noteq> []" by (simp add: example_blocks)
  have h2: "\<forall>j<length (extract_blocks example_row).
         resp_id (create_resp world_ok j) = Some (container_ids j)
       \<and> resp_id (publish_resp world_ok j) = Some (published_ids j)"
    by (simp add: world_ok_def container_ids_def published_ids_def)
  have sheet: "find_res (sheet_resp world_ok 1) = Returns (Some 2)"
    "headers_res (sheet_resp world_ok 1) = Returns [''Post_ID'', ''Status'', ''Threads_Post_ID'']"
    "index_of [''Post_ID'', ''Status'', ''Threads_Post_ID''] ''Status'' = Some 1"
    "index_of [''Post_ID'', ''Status'', ''Threads_Post_ID''] ''Threads_Post_ID'' = Some 2"
    "\<not> batch_raises (sheet_resp world_ok 1)"
    by (simp_all add: world_ok_def good_sheet_def)
  have h3: "resp_id (create_resp world_ok 0) = Some ''c0''" "resp_id (publish_resp world_ok 0) = Some ''p0''"
    "resp_id (create_resp world_ok 1) = Some ''c1''" "resp_id (publish_resp world_ok 1) = Some ''p1''"
    by (simp_all add: world_ok_def container_ids_def published_ids_def)
  show ?thesis
    using h3 sheet
      chain_success [OF h1 h2, of "''acct''" "''7''" example_cells]
    by (simp add: Let_def example_blocks enumerate_eq_zip container_ids_def published_ids_def
                del: One_nat_def)
qed

lemma main_blank:
  assumes "extract_blocks post_data = []"
  shows "publisher_main w acct pid post_data s =
         \<lparr>exit_code = 1, printed = None,
          final = snd (update_post_status w pid ''Error'' None s)\<rparr>"
  using assms by (simp add: publisher_main_def)

lemma main_cases [consumes 2, case_names blank posted create_failed publish_failed]:
  assumes "n_create s = 0" "n_publish s = 0"
  obtains
    (blank) "extract_blocks post_data = []"
      "publisher_main w acct pid post_data s =
         \<lparr>exit_code = 1, printed = None,
          final = snd (update_post_status w pid ''Error'' None s)\<rparr>"
  | (posted) c p where "extract_blocks post_data \<noteq> []"
      "\<forall>j<length (extract_blocks post_data).
          resp_id (create_resp w j) = Some (c j) \<and> resp_id (publish_resp w j) = Some (p j)"
      "publisher_main w acct pid post_data s =
         \<lparr>exit_code = 0,
          printed = Some \<lparr>threads_post_id = p 0, account_name = acct,
                          full_post_content = join [CHR 0x0A, CHR 0x0A] (extract_blocks post_data)\<rparr>,
          final = snd (update_post_status w pid ''Posted'' (Some (p 0))
                    (after_blocks c p (extract_blocks post_data)
                       (snd (update_post_status w pid ''Posting'' None s))))\<rparr>"
  | (create_failed) c p k where "k < length (extract_blocks post_data)"
      "\<forall>j<k. resp_id (create_resp w j) = Some (c j) \<and> resp_id (publish_resp w j) = Some (p j)"
      "resp_id (create_resp w k) = None"
      "publisher_main w acct pid post_data s =
         \<lparr>exit_code = 1, printed = None,
          final = snd (update_post_status w pid ''Error'' None
                    (snd (create_media_container w (extract_blocks post_data ! k)
                            (if k = 0 then None else Some (p (k - 1)))
                       (after_blocks c p (take k (extract_blocks post_data))
                          (snd (update_post_status w pid ''Posting'' None s))))))\<rparr>"
  | (publish_failed) c p k ck where "k < length (extract_blocks post_data)"
      "\<forall>j<k. resp_id (create_resp w j) = Some (c j) \<and> resp_id (publish_resp w j) = Some (p j)"
      "resp_id (create_resp w k) = Some ck" "resp_id (publish_resp w k) = None"
      "publisher_main w acct pid post_data s =
         \<lparr>exit_code = 1, printed = None,
          final = snd (update_post_status w pid ''Error'' None
                    (snd (publish_media_container w ck
                       (sleep (if k = 0 then 30 else 10)
                          (snd (create_media_container w (extract_blocks post_data ! k)
                                  (if k = 0 then None else Some (p (k - 1)))
                             (after_blocks c p (take k (extract_blocks post_data))
                                (snd (update_post_status w pid ''Posting'' None s)))))))))\<rparr>"
proof -
  define bs where "bs = extract_blocks post_data"
  define c where "c = (\<lambda>j. the (resp_id (create_resp w j)))"
  define p where "p = (\<lambda>j. the (resp_id (publish_resp w j)))"
  define ok where "ok = (\<lambda>j. resp_id (create_resp w j) \<noteq> None \<and> resp_id (publish_resp w j) \<noteq> None)"
  have okD: "resp_id (create_resp w j) = Some (c j) \<and> resp_id (publish_resp w j) = Some (p j)"
    if "ok j" for j using that by (auto simp: ok_def c_def p_def)
  show thesis
  proof (cases "bs = []")
    case True
    then show thesis
      using blank main_blank [of post_data w acct pid s] by (simp add: bs_def)
  next
    case ne: False
    from first_failure [of "length bs" ok]
    show thesis
    proof (elim disjE exE conjE)
      assume "\<forall>j<length bs. ok j"
      then have all: "\<forall>j<length bs. resp_id (create_resp w j) = Some (c j)
                          \<and> resp_id (publish_resp w j) = Some (p j)"
        using okD by blast
      show thesis
        using posted [of c p] main_success [OF bs_def [symmetric] ne assms all] ne all
        by (simp add: bs_def)
    next
      fix k assume k: "k < length bs" and before: "\<forall>j<k. ok j" and bad: "\<not> ok k"
      have pre: "\<forall>j<k. resp_id (create_resp w j) = Some (c j)
                          \<and> resp_id (publish_resp w j) = Some (p j)"
        using before okD by blast
      show thesis
      proof (cases "resp_id (create_resp w k)")
        case None
        show thesis
          using create_failed [of k c p]
                main_create_fails [OF bs_def [symmetric] k assms pre None] k pre None
          by (simp add: bs_def)
      next
        case (Some ck)
        then have pf: "resp_id (publish_resp w k) = None" using bad by (simp add: ok_def)
        show thesis
          using publish_failed [of k c p ck]
                main_publish_fails [OF bs_def [symmetric] k assms pre Some pf] k pre Some pf
          by (simp add: bs_def)
      qed
    qed
  qed
qed

lemma status_writes_append [simp]:
  "status_writes (xs @ ys) = status_writes xs @ status_writes ys"
  by (induction xs rule: status_writes.induct) auto

lemma status_writes_blocks [simp]:
  "status_writes (concat (map (block_events c p) ibs)) = []"
  by (induction ibs) (auto simp: block_events_def)

lemma created_texts_append [simp]:
  "created_texts (xs @ ys) = created_texts xs @ created_texts ys"
  by (induction xs rule: created_texts.induct) auto

lemma created_texts_blocks [simp]:
  "created_texts (concat (map (block_events c p) ibs)) = map snd ibs"
  by (induction ibs) (auto simp: block_events_def)

lemma length_block_events [simp]:
  "length (concat (map (block_events c p) ibs)) = 3 * length ibs"
  by (induction ibs) (auto simp: block_events_def)

lemma map_snd_enumerate [simp]: "map snd (enumerate n xs) = xs"
  by (simp add: enumerate_eq_zip)

subsection \<open>The order of the status writes\<close>

text \<open>
  Claim C7, as the program has it. The Publisher never reads the status of the row. The
  statuses it asks the sheet to write during a run are, in this order: Error alone when
  the row has no non-empty block; otherwise Posting first and then exactly one more,
  Posted when every block was created and published, Error at the first request that
  failed.
\<close>

theorem status_write_order:
  "status_writes (trace (final (publisher_main w acct pid post_data (init cs)))) =
     (if extract_blocks post_data = [] then [''Error'']
      else [''Posting'',
            if (\<forall>j<length (extract_blocks post_data).
                  resp_id (create_resp w j) \<noteq> None \<and> resp_id (publish_resp w j) \<noteq> None)
            then ''Posted'' else ''Error''])"
proof -
  have z: "n_create (init cs) = 0" "n_publish (init cs) = 0" by simp_all
  from z show ?thesis
  proof (cases rule: main_cases [where w = w and acct = acct and pid = pid and post_data = post_data])
    case blank
    then show ?thesis by simp
  next
    case (posted c p)
    then show ?thesis by simp
  next
    case (create_failed c p k)
    then have "extract_blocks post_data \<noteq> []" by auto
    with create_failed show ?thesis by auto
  next
    case (publish_failed c p k ck)
    then have "extract_blocks post_data \<noteq> []" by auto
    with publish_failed show ?thesis by auto
  qed
qed

lemma ups_update_fails:
  assumes "update_fails (sheet_resp w (n_update s))"
  shows "update_post_status w pid st t s =
         (False, s\<lparr>trace := trace s @ [StatusUpdate st t], n_update := Suc (n_update s)\<rparr>)"
  using assms
  by (auto simp: update_fails_def update_post_status_def Let_def split: outcome.splits option.splits)

lemma ups_update_fails_cells:
  "update_fails (sheet_resp w (n_update s)) \<Longrightarrow> cells (snd (update_post_status w pid st t s)) = cells s"
  by (simp add: ups_update_fails)

subsection \<open>A chain that fails at block k\<close>

text \<open>
  Claim C2, as the program has it. If the blocks before block k are created and
  published and the creation or the publication of block k fails, then the requests of
  the run are those of the blocks 0 to k only (k + 1 creation requests, and no request
  for a later block), the Publisher then asks the sheet once to write the status Error
  as its last action, prints nothing and exits with code 1. The row holds Error
  afterwards when that update is carried out by the spreadsheet.
\<close>

theorem failure_stops_chain:
  assumes "k < length (extract_blocks post_data)"
    and "\<forall>j<k. resp_id (create_resp w j) = Some (c j) \<and> resp_id (publish_resp w j) = Some (p j)"
    and "resp_id (create_resp w k) = None \<or> resp_id (publish_resp w k) = None"
  shows "let bs = extract_blocks post_data;
             r = publisher_main w acct pid post_data (init cs)
         in filter is_request (trace (final r)) =
              concat (map (\<lambda>(j, b). [Create b (if j = 0 then None else Some (p (j - 1))),
                                      Publish (c j)])
                          (enumerate 0 (take k bs)))
              @ Create (bs ! k) (if k = 0 then None else Some (p (k - 1)))
                # (case resp_id (create_resp w k) of None \<Rightarrow> [] | Some ck \<Rightarrow> [Publish ck])
          \<and> n_create (final r) = Suc k
          \<and> n_publish (final r) = (if resp_id (create_resp w k) = None then k else Suc k)
          \<and> status_writes (trace (final r)) = [''Posting'', ''Error'']
          \<and> last (trace (final r)) = StatusUpdate ''Error'' None
          \<and> printed r = None
          \<and> exit_code r = 1
          \<and> (\<forall>row hs sc.
                find_res (sheet_resp w 1) = Returns (Some row)
              \<and> headers_res (sheet_resp w 1) = Returns hs
              \<and> index_of hs ''Status'' = Some sc
              \<and> \<not> batch_raises (sheet_resp w 1)
              \<longrightarrow> cells (final r) (row, sc + 1) = ''Error'')"
proof -
  define bs where "bs = extract_blocks post_data"
  define r where "r = publisher_main w acct pid post_data (init cs)"
  define s1 where "s1 = snd (update_post_status w pid ''Posting'' None (init cs))"
  define sk where "sk = after_blocks c p (take k bs) s1"
  have k: "k < length bs" using assms(1) by (simp add: bs_def)
  have lk: "min (length bs) k = k" using k by simp
  obtain sf where r: "r = \<lparr>exit_code = 1, printed = None,
                           final = snd (update_post_status w pid ''Error'' None sf)\<rparr>"
    and tr: "trace sf = trace sk @ Create (bs ! k) (if k = 0 then None else Some (p (k - 1)))
               # (case resp_id (create_resp w k) of None \<Rightarrow> []
                  | Some ck \<Rightarrow> [Sleep (if k = 0 then 30 else 10), Publish ck])"
    and nc: "n_create sf = Suc k"
    and np: "n_publish sf = (if resp_id (create_resp w k) = None then k else Suc k)"
    and nu: "n_update sf = 1"
  proof (cases "resp_id (create_resp w k)")
    case None
    have pk: "0 < k \<longrightarrow> p (k - 1) \<noteq> []"
      using assms(2) resp_id_nonempty by (metis diff_less zero_less_one)
    show thesis
      using that [of "snd (create_media_container w (bs ! k) (if k = 0 then None else Some (p (k - 1))) sk)"]
        main_create_fails [OF bs_def [symmetric] k _ _ assms(2) None, of "init cs" acct pid]
        None pk k
      by (auto simp: r_def sk_def s1_def)
  next
    case (Some ck)
    then have pf: "resp_id (publish_resp w k) = None" using assms(3) by simp
    have pk: "0 < k \<longrightarrow> p (k - 1) \<noteq> []"
      using assms(2) resp_id_nonempty by (metis diff_less zero_less_one)
    show thesis
      using that [of "snd (publish_media_container w ck (sleep (if k = 0 then 30 else 10)
               (snd (create_media_container w (bs ! k) (if k = 0 then None else Some (p (k - 1))) sk))))"]
        main_publish_fails [OF bs_def [symmetric] k _ _ assms(2) Some pf, of "init cs" acct pid]
        Some pk k
      by (auto simp: r_def sk_def s1_def)
  qed
  have trk: "trace sk = StatusUpdate ''Posting'' None # concat (map (block_events c p) (enumerate 0 (take k bs)))"
    by (simp add: sk_def s1_def)
  have req: "filter is_request (trace (final r)) =
              concat (map (\<lambda>(j, b). [Create b (if j = 0 then None else Some (p (j - 1))),
                                      Publish (c j)])
                          (enumerate 0 (take k bs)))
              @ Create (bs ! k) (if k = 0 then None else Some (p (k - 1)))
                # (case resp_id (create_resp w k) of None \<Rightarrow> [] | Some ck \<Rightarrow> [Publish ck])"
    by (simp add: r tr trk requests_of_blocks split: option.splits)
  have sw: "status_writes (trace (final r)) = [''Posting'', ''Error'']"
    by (simp add: r tr trk split: option.splits)
  have sheet: "cells (final r) (row, sc + 1) = ''Error''"
    if "find_res (sheet_resp w 1) = Returns (Some row)"
       "headers_res (sheet_resp w 1) = Returns hs"
       "index_of hs ''Status'' = Some sc"
       "\<not> batch_raises (sheet_resp w 1)" for row hs sc
  proof -
    have a: "find_res (sheet_resp w (n_update sf)) = Returns (Some row)"
      "headers_res (sheet_resp w (n_update sf)) = Returns hs"
      "\<not> batch_raises (sheet_resp w (n_update sf))"
      using that nu by simp_all
    show ?thesis
      using ups_succeeds(2) [OF a(1,2) that(3) a(3)] by (simp add: r)
  qed
  show ?thesis
    unfolding Let_def bs_def [symmetric] r_def [symmetric]
    using req sw sheet nc np by (simp add: r)
qed

lemma post_chain_extends:
  "\<exists>ext. trace (snd (post_chain w pid lst root ibs s)) = trace s @ ext"
proof (induction ibs arbitrary: lst root s)
  case Nil
  then show ?case by simp
next
  case (Cons ib ibs)
  obtain i b where ib: "ib = (i, b)" by (cases ib)
  show ?case
  proof (cases "resp_id (create_resp w (n_create s)) = None \<or> resp_id (publish_resp w (n_publish s)) = None")
    case True
    then show ?thesis unfolding ib by (subst post_chain_step) auto
  next
    case False
    let ?s3 = "snd (publish_media_container w (the (resp_id (create_resp w (n_create s))))
                 (sleep (if i = 0 then 30 else 10) (snd (create_media_container w b lst s))))"
    obtain ext where "trace (snd (post_chain w pid (resp_id (publish_resp w (n_publish s)))
             (if i = 0 then resp_id (publish_resp w (n_publish s)) else root) ibs ?s3)) = trace ?s3 @ ext"
      using Cons.IH by blast
    then show ?thesis
      unfolding ib using False by (subst post_chain_step) simp
  qed
qed

lemma post_chain_block_trace:
  assumes "resp_id (create_resp w (n_create s)) = Some ck"
  shows "\<exists>ext. trace (snd (post_chain w pid lst root ((i, b) # rest) s)) =
           trace s @ [Create b (if truthy lst then lst else None),
                      Sleep (if i = 0 then 30 else 10), Publish ck] @ ext"
proof (cases "resp_id (publish_resp w (n_publish s)) = None")
  case True
  then show ?thesis using assms by (subst post_chain_step) simp
next
  case False
  let ?s3 = "snd (publish_media_container w ck
                 (sleep (if i = 0 then 30 else 10) (snd (create_media_container w b lst s))))"
  obtain ext where "trace (snd (post_chain w pid (resp_id (publish_resp w (n_publish s)))
             (if i = 0 then resp_id (publish_resp w (n_publish s)) else root) rest ?s3)) = trace ?s3 @ ext"
    using post_chain_extends by blast
  then show ?thesis
    using False assms by (subst post_chain_step) simp
qed

lemma main_extends:
  assumes "extract_blocks post_data \<noteq> []"
  shows "\<exists>ext. trace (final (publisher_main w acct pid post_data s)) =
           trace (snd (post_chain w pid None None (enumerate 0 (extract_blocks post_data))
                         (snd (update_post_status w pid ''Posting'' None s)))) @ ext"
  using assms
  by (auto simp: publisher_main_def Let_def split: prod.splits loop_result.splits)

subsection \<open>The delay before each publication\<close>

text \<open>
  Claim C9. For every block k whose container is created (the blocks before it having
  been created and published), the run continues with a sleep of 30 for k = 0 and of 10
  for every later block, and only then with the publish request for that container: the
  events number 3k + 1, 3k + 2 and 3k + 3 of the run (event 0 is the status update to
  Posting) are the creation request, the sleep and the publish request of block k.
\<close>

theorem publish_delay:
  assumes "k < length (extract_blocks post_data)"
    and "\<forall>j<k. resp_id (create_resp w j) = Some (c j) \<and> resp_id (publish_resp w j) = Some (p j)"
    and "resp_id (create_resp w k) = Some ck"
  shows "take 3 (drop (3 * k + 1) (trace (final (publisher_main w acct pid post_data (init cs))))) =
           [Create (extract_blocks post_data ! k) (if k = 0 then None else Some (p (k - 1))),
            Sleep (if k = 0 then 30 else 10),
            Publish ck]"
proof -
  define bs where "bs = extract_blocks post_data"
  define s1 where "s1 = snd (update_post_status w pid ''Posting'' None (init cs))"
  define sk where "sk = after_blocks c p (take k bs) s1"
  let ?lst = "if k = 0 then None else Some (p (k - 1))"
  let ?blk = "[Create (bs ! k) ?lst, Sleep (if k = 0 then 30 else 10), Publish ck]"
  have k: "k < length bs" using assms(1) by (simp add: bs_def)
  have ne: "bs \<noteq> []" using k by auto
  have pk: "0 < k \<longrightarrow> p (k - 1) \<noteq> []"
    using assms(2) resp_id_nonempty by (metis diff_less zero_less_one)
  have pay: "(if truthy ?lst then ?lst else None) = ?lst" using pk by auto
  have stop: "post_chain w pid None None (enumerate 0 bs) s1 =
         post_chain w pid ?lst (if k = 0 then None else Some (p 0))
           ((k, bs ! k) # enumerate (Suc k) (drop (Suc k) bs)) sk"
    unfolding sk_def by (rule post_chain_stops) (use assms k in \<open>auto simp: s1_def\<close>)
  have nk: "n_create sk = k" using k by (simp add: sk_def)
  obtain ext where e1: "trace (snd (post_chain w pid ?lst (if k = 0 then None else Some (p 0))
           ((k, bs ! k) # enumerate (Suc k) (drop (Suc k) bs)) sk)) = trace sk @ ?blk @ ext"
    using post_chain_block_trace [of w sk ck pid ?lst "if k = 0 then None else Some (p 0)" k "bs ! k"]
          assms(3) nk pay by auto
  obtain ext' where e2: "trace (final (publisher_main w acct pid post_data (init cs))) =
           trace (snd (post_chain w pid None None (enumerate 0 bs) s1)) @ ext'"
    using main_extends [of post_data w acct pid "init cs"] ne by (auto simp: bs_def s1_def)
  have trk: "trace sk = StatusUpdate ''Posting'' None # concat (map (block_events c p) (enumerate 0 (take k bs)))"
    by (simp add: sk_def s1_def)
  have len: "length (trace sk) = 3 * k + 1" using k by (simp add: trk)
  have "trace (final (publisher_main w acct pid post_data (init cs))) = trace sk @ ?blk @ ext @ ext'"
    using e1 e2 stop by simp
  then have "take 3 (drop (3 * k + 1) (trace (final (publisher_main w acct pid post_data (init cs))))) = ?blk"
    using len by simp
  then show ?thesis by (simp add: bs_def)
qed

lemma strip_empty_iff: "(strip s = []) = (\<forall>ch\<in>set s. is_space ch)"
proof -
  have "(strip s = []) = (\<forall>ch\<in>set (dropWhile is_space s). is_space ch)"
    by (simp add: strip_def dropWhile_eq_Nil_conv)
  also have "\<dots> = (dropWhile is_space s = [])"
  proof
    assume a: "\<forall>ch\<in>set (dropWhile is_space s). is_space ch"
    show "dropWhile is_space s = []"
    proof (rule ccontr)
      assume ne: "dropWhile is_space s \<noteq> []"
      then have "\<not> is_space (hd (dropWhile is_space s))" by (rule hd_dropWhile)
      moreover have "hd (dropWhile is_space s) \<in> set (dropWhile is_space s)"
        using ne by (rule hd_in_set)
      ultimately show False using a by blast
    qed
  next
    assume "dropWhile is_space s = []"
    then show "\<forall>ch\<in>set (dropWhile is_space s). is_space ch"
      by (metis empty_iff empty_set)
  qed
  also have "\<dots> = (\<forall>ch\<in>set s. is_space ch)"
    by (simp add: dropWhile_eq_Nil_conv)
  finally show ?thesis .
qed

lemma extract_blocks_alt:
  "extract_blocks post_data =
     map strip (filter (\<lambda>t. \<not> (\<forall>ch\<in>set t. is_space ch)) (map (get_cell post_data) block_keys))"
  by (simp add: extract_blocks_def filter_map comp_def strip_empty_iff)

lemma created_prefix:
  "created_texts (trace (final (publisher_main w acct pid post_data (init cs)))) =
     take (n_create (final (publisher_main w acct pid post_data (init cs)))) (extract_blocks post_data)"
proof -
  have z: "n_create (init cs) = 0" "n_publish (init cs) = 0" by simp_all
  from z show ?thesis
  proof (cases rule: main_cases [where w = w and acct = acct and pid = pid and post_data = post_data])
    case blank
    then show ?thesis by simp
  next
    case (posted c p)
    then show ?thesis by simp
  next
    case (create_failed c p k)
    then show ?thesis by (simp add: take_Suc_conv_app_nth min_def)
  next
    case (publish_failed c p k ck)
    then show ?thesis by (simp add: take_Suc_conv_app_nth min_def)
  qed
qed

subsection \<open>Blank blocks\<close>

text \<open>
  Claim C6. The chain is the list of the four block cells without those that are empty
  or consist of white space only, each stripped, in the order of the columns; the texts
  sent to the platform are an initial part of that list, in that order; and when no
  block is left the run makes no platform request at all: it asks the sheet to write
  the status Error, prints nothing and exits with code 1.
\<close>

theorem blank_blocks_excluded:
  "extract_blocks post_data =
     map strip (filter (\<lambda>t. \<not> (\<forall>ch\<in>set t. is_space ch)) (map (get_cell post_data) block_keys))
   \<and> (let r = publisher_main w acct pid post_data (init cs)
      in created_texts (trace (final r)) = take (n_create (final r)) (extract_blocks post_data)
       \<and> (extract_blocks post_data = [] \<longrightarrow>
            trace (final r) = [StatusUpdate ''Error'' None] \<and> printed r = None \<and> exit_code r = 1))"
  using extract_blocks_alt [of post_data] created_prefix [of w acct pid post_data cs]
  by (simp add: Let_def main_blank)

lemma run_independent_of_sheet:
  assumes "create_resp w' = create_resp w" "publish_resp w' = publish_resp w"
  shows "exit_code (publisher_main w' acct pid post_data (init cs)) =
           exit_code (publisher_main w acct pid post_data (init cs))
       \<and> printed (publisher_main w' acct pid post_data (init cs)) =
           printed (publisher_main w acct pid post_data (init cs))
       \<and> trace (final (publisher_main w' acct pid post_data (init cs))) =
           trace (final (publisher_main w acct pid post_data (init cs)))
       \<and> ((\<forall>n. update_fails (sheet_resp w' n)) \<longrightarrow>
            cells (final (publisher_main w' acct pid post_data (init cs))) = cs)"
proof -
  have z: "n_create (init cs) = 0" "n_publish (init cs) = 0" by simp_all
  from z show ?thesis
  proof (cases rule: main_cases [where w = w and acct = acct and pid = pid and post_data = post_data])
    case blank
    then show ?thesis
      using main_blank [of post_data w' acct pid "init cs"]
      by (simp add: ups_update_fails_cells)
  next
    case (posted c p)
    have "publisher_main w' acct pid post_data (init cs) =
         \<lparr>exit_code = 0,
          printed = Some \<lparr>threads_post_id = p 0, account_name = acct,
                          full_post_content = join [CHR 0x0A, CHR 0x0A] (extract_blocks post_data)\<rparr>,
          final = snd (update_post_status w' pid ''Posted'' (Some (p 0))
                    (after_blocks c p (extract_blocks post_data)
                       (snd (update_post_status w' pid ''Posting'' None (init cs)))))\<rparr>"
      by (rule main_success) (use posted assms in simp_all)
    then show ?thesis using posted(3) by (simp add: ups_update_fails_cells)
  next
    case (create_failed c p k)
    have "publisher_main w' acct pid post_data (init cs) =
         \<lparr>exit_code = 1, printed = None,
          final = snd (update_post_status w' pid ''Error'' None
                    (snd (create_media_container w' (extract_blocks post_data ! k)
                            (if k = 0 then None else Some (p (k - 1)))
                       (after_blocks c p (take k (extract_blocks post_data))
                          (snd (update_post_status w' pid ''Posting'' None (init cs)))))))\<rparr>"
      by (rule main_create_fails) (use create_failed assms in simp_all)
    then show ?thesis using create_failed(4) by (simp add: ups_update_fails_cells)
  next
    case (publish_failed c p k ck)
    have "publisher_main w' acct pid post_data (init cs) =
         \<lparr>exit_code = 1, printed = None,
          final = snd (update_post_status w' pid ''Error'' None
                    (snd (publish_media_container w' ck
                       (sleep (if k = 0 then 30 else 10)
                          (snd (create_media_container w' (extract_blocks post_data ! k)
                                  (if k = 0 then None else Some (p (k - 1)))
                             (after_blocks c p (take k (extract_blocks post_data))
                                (snd (update_post_status w' pid ''Posting'' None (init cs))))))))))\<rparr>"
      by (rule main_publish_fails) (use publish_failed assms in simp_all)
    then show ?thesis using publish_failed(5) by (simp add: ups_update_fails_cells)
  qed
qed

subsection \<open>Failing status updates\<close>

text \<open>
  Claim C10. A status update that fails returns False, without raising and without
  changing the sheet, and nothing in the run depends on it: two worlds whose platform
  answers agree give the same exit code, the same printed output and the same sequence
  of requests, sleeps and status updates, whatever the spreadsheet answers. If every
  status update fails, the sheet is the same after the run as before it, with exit code
  0 or 1 as the publishing goes.
\<close>

theorem sheet_failure_ignored:
  assumes "create_resp w' = create_resp w" "publish_resp w' = publish_resp w"
  shows "let r = publisher_main w acct pid post_data (init cs);
             r' = publisher_main w' acct pid post_data (init cs)
         in exit_code r' = exit_code r \<and> printed r' = printed r
          \<and> trace (final r') = trace (final r)
          \<and> (\<forall>st t s. update_fails (sheet_resp w' (n_update s)) \<longrightarrow>
                update_post_status w' pid st t s =
                  (False, s\<lparr>trace := trace s @ [StatusUpdate st t], n_update := Suc (n_update s)\<rparr>))
          \<and> ((\<forall>n. update_fails (sheet_resp w' n)) \<longrightarrow> cells (final r') = cs)"
  using run_independent_of_sheet [OF assms, of acct pid post_data cs]
  by (simp add: Let_def ups_update_fails)

lemma blank_blocks: "extract_blocks blank_row = []"
  by (simp add: extract_blocks_def block_keys_def get_cell_def blank_row_def strip_def is_space_def)

lemma good_sheet_status:
  "find_res good_sheet = Returns (Some 2)"
  "headers_res good_sheet = Returns [''Post_ID'', ''Status'', ''Threads_Post_ID'']"
  "index_of [''Post_ID'', ''Status'', ''Threads_Post_ID''] ''Status'' = Some 1"
  "index_of [''Post_ID'', ''Status'', ''Threads_Post_ID''] ''Threads_Post_ID'' = Some 2"
  "\<not> batch_raises good_sheet"
  by (simp_all add: good_sheet_def)

lemma broken_sheet_fails: "update_fails broken_sheet"
  by (simp add: update_fails_def broken_sheet_def)

theorem failure_stops_chain_witness:
  "extract_blocks example_row = [''first'', ''second'']
   \<and> resp_id (create_resp world_publish_fails 0) = Some ''c0''
   \<and> resp_id (publish_resp world_publish_fails 0) = Some ''p0''
   \<and> resp_id (publish_resp world_publish_fails 1) = None
   \<and> (let r = publisher_main world_publish_fails ''acct'' ''7'' example_row (init example_cells)
      in filter is_request (trace (final r)) =
           [Create ''first'' None, Publish ''c0'', Create ''second'' (Some ''p0''), Publish ''c1'']
       \<and> last (trace (final r)) = StatusUpdate ''Error'' None
       \<and> exit_code r = 1
       \<and> cells (final r) (2, 2) = ''Error'')"
proof -
  have h1: "1 < length (extract_blocks example_row)" by (simp add: example_blocks)
  have h2: "\<forall>j<1. resp_id (create_resp world_publish_fails j) = Some (container_ids j)
                 \<and> resp_id (publish_resp world_publish_fails j) = Some (published_ids j)"
    by (simp add: world_publish_fails_def container_ids_def published_ids_def)
  have h3: "resp_id (create_resp world_publish_fails 1) = None
          \<or> resp_id (publish_resp world_publish_fails 1) = None"
    by (simp add: world_publish_fails_def)
  have h4: "resp_id (create_resp world_publish_fails 0) = Some ''c0''"
    "resp_id (publish_resp world_publish_fails 0) = Some ''p0''"
    "resp_id (publish_resp world_publish_fails 1) = None"
    "resp_id (create_resp world_publish_fails 1) = Some ''c1''"
    by (simp_all add: world_publish_fails_def container_ids_def)
  have sheet: "sheet_resp world_publish_fails 1 = good_sheet" by (simp add: world_publish_fails_def)
  note run = failure_stops_chain [OF h1 h2 h3, of "''acct''" "''7''" example_cells, unfolded Let_def]
  have "cells (final (publisher_main world_publish_fails ''acct'' ''7'' example_row (init example_cells)))
          (2, 1 + 1) = ''Error''"
    using run good_sheet_status unfolding sheet by blast
  then have cell: "cells (final (publisher_main world_publish_fails ''acct'' ''7'' example_row
                     (init example_cells))) (2, 2) = ''Error''"
    unfolding one_add_one .
  show ?thesis
    unfolding Let_def using h4 run cell
    by (simp add: example_blocks enumerate_eq_zip container_ids_def published_ids_def)
qed

text \<open>
  Claim C2 as stated fails when the spreadsheet does not carry out the update to Error:
  the creation of block 0 fails, the update raises, and the status cell (row 2,
  column 2) still holds Posting after the run.
\<close>

theorem status_not_set_counterexample:
  "\<not> (resp_id (create_resp world_stuck 0) = None \<longrightarrow>
       cells (final (publisher_main world_stuck ''acct'' ''7'' example_row (init example_cells))) (2, 2)
         = ''Error'')"
proof -
  have k: "0 < length [''first'', ''second'']" by simp
  have pre: "\<forall>j<0. resp_id (create_resp world_stuck j) = Some (container_ids j)
                 \<and> resp_id (publish_resp world_stuck j) = Some (published_ids j)" by simp
  have cf: "resp_id (create_resp world_stuck 0) = None" by (simp add: world_stuck_def)
  have s0: "sheet_resp world_stuck 0 = good_sheet" by (simp add: world_stuck_def)
  have s1: "update_fails (sheet_resp world_stuck (Suc 0))"
    by (simp add: world_stuck_def broken_sheet_fails)
  have posting: "cells (snd (update_post_status world_stuck ''7'' ''Posting'' None (init example_cells))) (2, 1 + 1)
                   = ''Posting''"
    by (rule ups_succeeds(2) [where hs = "[''Post_ID'', ''Status'', ''Threads_Post_ID'']"])
       (simp_all add: s0 good_sheet_status)
  have "cells (final (publisher_main world_stuck ''acct'' ''7'' example_row (init example_cells))) (2, 2)
          = ''Posting''"
    using main_create_fails [OF example_blocks k _ _ pre cf, of "init example_cells" "''acct''" "''7''"]
          posting s1
    by (simp add: ups_update_fails_cells numeral_2_eq_2)
  then show ?thesis using cf by simp
qed

theorem blank_blocks_excluded_witness:
  "extract_blocks example_row = [''first'', ''second'']
   \<and> extract_blocks blank_row = []
   \<and> (let r = publisher_main world_ok ''acct'' ''8'' blank_row (init example_cells)
      in trace (final r) = [StatusUpdate ''Error'' None] \<and> printed r = None \<and> exit_code r = 1)
   \<and> (let r = publisher_main world_publish_fails ''acct'' ''7'' example_row (init example_cells)
      in created_texts (trace (final r)) = take (n_create (final r)) [''first'', ''second''])"
  using blank_blocks_excluded [of blank_row world_ok "''acct''" "''8''" example_cells]
        blank_blocks_excluded [of example_row world_publish_fails "''acct''" "''7''" example_cells]
  by (simp add: Let_def blank_blocks example_blocks)

text \<open>
  Claim C7 as stated fails for a row whose blocks are all blank: the only status write
  of the run takes the row from Ready to Error, without passing through Posting.
\<close>

theorem error_written_from_ready_counterexample:
  "example_cells (2, 2) = ''Ready''
   \<and> extract_blocks blank_row = []
   \<and> (let r = publisher_main world_ok ''acct'' ''8'' blank_row (init example_cells)
      in trace (final r) = [StatusUpdate ''Error'' None]
       \<and> cells (final r) (2, 2) = ''Error'')"
proof -
  have s0: "sheet_resp world_ok 0 = good_sheet" by (simp add: world_ok_def)
  have "cells (snd (update_post_status world_ok ''8'' ''Error'' None (init example_cells))) (2, 1 + 1)
          = ''Error''"
    by (rule ups_succeeds(2) [where hs = "[''Post_ID'', ''Status'', ''Threads_Post_ID'']"])
       (simp_all add: s0 good_sheet_status)
  then have "cells (snd (update_post_status world_ok ''8'' ''Error'' None (init example_cells))) (2, 2)
          = ''Error''"
    unfolding one_add_one .
  then show ?thesis
    by (simp add: Let_def main_blank blank_blocks example_cells_def)
qed

theorem status_write_order_witness:
  "status_writes (trace (final (publisher_main world_ok ''acct'' ''7'' example_row (init example_cells))))
     = [''Posting'', ''Posted'']
   \<and> status_writes (trace (final (publisher_main world_publish_fails ''acct'' ''7'' example_row
                                     (init example_cells))))
     = [''Posting'', ''Error'']
   \<and> status_writes (trace (final (publisher_main world_ok ''acct'' ''8'' blank_row (init example_cells))))
     = [''Error'']"
proof -
  have ok: "\<forall>j<length [''first'', ''second''].
              resp_id (create_resp world_ok j) \<noteq> None \<and> resp_id (publish_resp world_ok j) \<noteq> None"
    by (simp add: world_ok_def container_ids_def published_ids_def)
  have nb: "resp_id (publish_resp world_publish_fails 1) = None"
    by (simp add: world_publish_fails_def)
  have bad: "\<not> (\<forall>j<length [''first'', ''second''].
              resp_id (create_resp world_publish_fails j) \<noteq> None
            \<and> resp_id (publish_resp world_publish_fails j) \<noteq> None)"
  proof
    assume all: "\<forall>j<length [''first'', ''second''].
              resp_id (create_resp world_publish_fails j) \<noteq> None
            \<and> resp_id (publish_resp world_publish_fails j) \<noteq> None"
    have "(1::nat) < length [''first'', ''second'']" by simp
    with all have "resp_id (publish_resp world_publish_fails 1) \<noteq> None" by blast
    with nb show False by simp
  qed
  show ?thesis
    using status_write_order [of world_ok "''acct''" "''7''" example_row example_cells]
          status_write_order [of world_publish_fails "''acct''" "''7''" example_row example_cells]
          status_write_order [of world_ok "''acct''" "''8''" blank_row example_cells]
          ok bad
    by (simp add: example_blocks blank_blocks)
qed

theorem publish_delay_witness:
  "extract_blocks example_row = [''first'', ''second'']
   \<and> resp_id (create_resp world_ok 0) = Some ''c0'' \<and> resp_id (publish_resp world_ok 0) = Some ''p0''
   \<and> resp_id (create_resp world_ok 1) = Some ''c1''
   \<and> (let tr = trace (final (publisher_main world_ok ''acct'' ''7'' example_row (init example_cells)))
      in take 3 (drop 1 tr) = [Create ''first'' None, Sleep 30, Publish ''c0'']
       \<and> take 3 (drop 4 tr) = [Create ''second'' (Some ''p0''), Sleep 10, Publish ''c1''])"
proof -
  have h0: "0 < length (extract_blocks example_row)" and h1: "1 < length (extract_blocks example_row)"
    by (simp_all add: example_blocks)
  have p0: "\<forall>j<0. resp_id (create_resp world_ok j) = Some (container_ids j)
                 \<and> resp_id (publish_resp world_ok j) = Some (published_ids j)" by simp
  have p1: "\<forall>j<1. resp_id (create_resp world_ok j) = Some (container_ids j)
                 \<and> resp_id (publish_resp world_ok j) = Some (published_ids j)"
    by (simp add: world_ok_def container_ids_def published_ids_def)
  have c: "resp_id (create_resp world_ok 0) = Some ''c0''" "resp_id (create_resp world_ok 1) = Some ''c1''"
    "resp_id (publish_resp world_ok 0) = Some ''p0''"
    by (simp_all add: world_ok_def container_ids_def published_ids_def)
  show ?thesis
    using c publish_delay [OF h0 p0 c(1), of "''acct''" "''7''" example_cells]
          publish_delay [OF h1 p1 c(2), of "''acct''" "''7''" example_cells]
    by (simp add: Let_def example_blocks published_ids_def)
qed

theorem sheet_failure_ignored_witness:
  "create_resp world_no_sheet = create_resp world_ok
   \<and> publish_resp world_no_sheet = publish_resp world_ok
   \<and> update_fails (sheet_resp world_no_sheet 0) \<and> update_fails (sheet_resp world_no_sheet 1)
   \<and> (let r = publisher_main world_ok ''acct'' ''7'' example_row (init example_cells);
          r' = publisher_main world_no_sheet ''acct'' ''7'' example_row (init example_cells)
      in exit_code r' = 0 \<and> exit_code r = 0
       \<and> trace (final r') = trace (final r)
       \<and> filter is_request (trace (final r')) =
           [Create ''first'' None, Publish ''c0'', Create ''second'' (Some ''p0''), Publish ''c1'']
       \<and> cells (final r') = example_cells)
   \<and> (let r = publisher_main world_down ''acct'' ''7'' example_row (init example_cells)
      in exit_code r = 1 \<and> cells (final r) = example_cells)"
proof -
  have a: "create_resp world_no_sheet = create_resp world_ok"
    "publish_resp world_no_sheet = publish_resp world_ok"
    by (simp_all add: world_no_sheet_def world_ok_def)
  have f: "\<forall>n. update_fails (sheet_resp world_no_sheet n)" "\<forall>n. update_fails (sheet_resp world_down n)"
    by (simp_all add: world_no_sheet_def world_down_def broken_sheet_fails)
  have ne: "[''first'', ''second''] \<noteq> ([]::string list)" by simp
  have ok: "\<forall>j<length [''first'', ''second''].
              resp_id (create_resp world_ok j) = Some (container_ids j)
            \<and> resp_id (publish_resp world_ok j) = Some (published_ids j)"
    by (simp add: world_ok_def container_ids_def published_ids_def)
  have r: "exit_code (publisher_main world_ok ''acct'' ''7'' example_row (init example_cells)) = 0"
    "filter is_request (trace (final (publisher_main world_ok ''acct'' ''7'' example_row (init example_cells))))
       = [Create ''first'' None, Publish ''c0'', Create ''second'' (Some ''p0''), Publish ''c1'']"
    using main_success [OF example_blocks ne _ _ ok, of "init example_cells" "''acct''" "''7''"]
    by (simp_all add: block_events_def enumerate_eq_zip container_ids_def published_ids_def)
  have k: "0 < length [''first'', ''second'']" by simp
  have pre: "\<forall>j<0. resp_id (create_resp world_down j) = Some (container_ids j)
                 \<and> resp_id (publish_resp world_down j) = Some (published_ids j)" by simp
  have cf: "resp_id (create_resp world_down 0) = None" by (simp add: world_down_def)
  have d: "exit_code (publisher_main world_down ''acct'' ''7'' example_row (init example_cells)) = 1"
    using main_create_fails [OF example_blocks k _ _ pre cf, of "init example_cells" "''acct''" "''7''"]
    by simp
  show ?thesis
    using a f r d
      sheet_failure_ignored [OF a, of "''acct''" "''7''" example_row example_cells]
      sheet_failure_ignored [OF refl refl, of world_down "''acct''" "''7''" example_row example_cells]
    by (simp add: Let_def)
qed

section \<open>Facts about the Insight Logger\<close>

lemma parse_metric_assignment:
  "parse_metric md acc = (case assignment md of None \<Rightarrow> acc | Some (k, v) \<Rightarrow> AList.update k v acc)"
  by (simp add: parse_metric_def assignment_def)

lemma assignment_key: "assignment md = Some (k, v) \<Longrightarrow> name md = Some k"
  by (auto simp: assignment_def split: if_splits)

lemma map_of_parse_metric:
  "map_of (parse_metric md acc) k =
     (case assignment md of
        None \<Rightarrow> map_of acc k
      | Some (k', v) \<Rightarrow> if k' = k then Some v else map_of acc k)"
  by (auto simp: parse_metric_assignment update_conv' split: option.splits)

lemma parse_entries_Nil [simp]: "parse_entries [] acc = acc"
  by (simp add: parse_entries_def)

lemma parse_entries_Cons [simp]: "parse_entries (md # entries) acc = parse_entries entries (parse_metric md acc)"
  by (simp add: parse_entries_def)

lemma parse_entries_append [simp]:
  "parse_entries (xs @ ys) acc = parse_entries ys (parse_entries xs acc)"
  by (simp add: parse_entries_def)

lemma parse_entries_other:
  "\<forall>e\<in>set entries. assignment e = None \<or> name e \<noteq> Some k \<Longrightarrow>
   map_of (parse_entries entries acc) k = map_of acc k"
proof (induction entries arbitrary: acc)
  case Nil
  then show ?case by simp
next
  case (Cons e entries)
  have "map_of (parse_metric e acc) k = map_of acc k"
    using Cons.prems assignment_key [of e]
    by (auto simp: map_of_parse_metric split: option.splits)
  with Cons show ?case by simp
qed

lemma parse_entries_unique:
  assumes "\<forall>e\<in>set pre \<union> set post. name e \<noteq> Some k" "name md = Some k"
  shows "map_of (parse_entries (pre @ md # post) []) k = map_option snd (assignment md)"
proof -
  have "map_of (parse_entries (pre @ md # post) []) k = map_of (parse_metric md (parse_entries pre [])) k"
    using assms(1) by (simp add: parse_entries_other)
  also have "\<dots> = (case assignment md of None \<Rightarrow> map_of (parse_entries pre []) k
       | Some (k', v) \<Rightarrow> if k' = k then Some v else map_of (parse_entries pre []) k)"
    by (rule map_of_parse_metric)
  also have "map_of (parse_entries pre []) k = None"
    using assms(1) by (simp add: parse_entries_other)
  finally show ?thesis
    using assms(2) assignment_key [of md] by (auto split: option.splits)
qed

lemma get_post_insights_Body:
  "get_post_insights (Body (Some entries)) = Some (parse_entries entries [])"
  by (simp add: get_post_insights_def parse_entries_def)

lemma example_insights: "get_post_insights example_response = Some [(''views'', 12), (''likes'', 3)]"
  by (simp add: get_post_insights_def example_response_def views_entry_def likes_entry_def
        parse_metric_def has_values_def value_or_0_def)


subsection \<open>Metrics that are absent\<close>



subsection \<open>How a metric is extracted\<close>

text \<open>
  Claim C4 as stated fails for likes reported as a time series: the samples 5 and 12
  give 17, not 12.
\<close>

theorem likes_series_counterexample:
  "\<not> (insights_get (the (get_post_insights likes_series_response)) ''likes''
        = value_or_0 (last [Some 5, Some 12]))"
  by (simp add: get_post_insights_def likes_series_response_def parse_metric_def has_values_def
        value_or_0_def insights_get_def)

text \<open>
  Claim C4, as the program has it. For a metric with a single entry in the response:
  views reported as a time series that is not empty yields the value of its last
  sample; likes or replies reported with an aggregate yields the value of the
  aggregate; likes or replies reported only as a time series that is not empty yields
  the sum of the values of the samples; views without a time series (reported as an
  aggregate only, or with an empty series) is not extracted and reads as 0. A sample or
  an aggregate without a value counts as 0.
\<close>

theorem metric_extraction:
  assumes "get_post_insights (Body (Some (pre @ md # post))) = Some insights"
    and "\<forall>e\<in>set pre \<union> set post. name e \<noteq> name md"
  shows "(name md = Some ''views'' \<and> values_field md = Some vs \<and> vs \<noteq> []
            \<longrightarrow> insights_get insights ''views'' = value_or_0 (last vs))
       \<and> (name md = Some k \<and> k \<in> {''likes'', ''replies''} \<and> total_value md = Some tv
            \<longrightarrow> insights_get insights k = value_or_0 tv)
       \<and> (name md = Some k \<and> k \<in> {''likes'', ''replies''} \<and> total_value md = None
            \<and> values_field md = Some vs \<and> vs \<noteq> []
            \<longrightarrow> insights_get insights k = sum_list (map value_or_0 vs))
       \<and> (name md = Some ''views'' \<and> (values_field md = None \<or> values_field md = Some [])
            \<longrightarrow> insights_get insights ''views'' = 0)"
proof -
  have ins: "insights = parse_entries (pre @ md # post) []"
    using assms(1) by (simp add: get_post_insights_Body)
  have key: "map_of insights k' = map_option snd (assignment md)" if "name md = Some k'" for k'
    unfolding ins using assms(2) that by (intro parse_entries_unique) auto
  show ?thesis
    by (auto simp: insights_get_def key assignment_def has_values_def)
qed

theorem metric_extraction_witness:
  "get_post_insights (Body (Some ([] @ views_entry # [likes_entry]))) = Some [(''views'', 12), (''likes'', 3)]
   \<and> name views_entry = Some ''views'' \<and> values_field views_entry = Some [Some 5, Some 12]
   \<and> name likes_entry \<noteq> name views_entry
   \<and> insights_get [(''views'', 12), (''likes'', 3)] ''views'' = value_or_0 (last [Some 5, Some 12])
   \<and> value_or_0 (last [Some 5, Some 12]) = 12"
proof -
  have a: "get_post_insights (Body (Some ([] @ views_entry # [likes_entry]))) = Some [(''views'', 12), (''likes'', 3)]"
    using example_insights by (simp add: example_response_def)
  have b: "\<forall>e\<in>set [] \<union> set [likes_entry]. name e \<noteq> name views_entry"
    by (simp add: views_entry_def likes_entry_def)
  have c: "name views_entry = Some ''views''" "values_field views_entry = Some [Some 5, Some 12]"
    by (simp_all add: views_entry_def)
  have "insights_get [(''views'', 12), (''likes'', 3)] ''views'' = value_or_0 (last [Some 5, Some 12])"
    using metric_extraction [OF a b, of "[Some 5, Some 12]"] c by simp
  then show ?thesis
    using a b c by (simp add: value_or_0_def)
qed

subsection \<open>The exit code of the Insight Logger\<close>

text \<open>
  Claim C5 at the input where the fetch succeeds and \<open>append_row\<close> raises: the exception
  is caught in \<open>log_to_google_sheet\<close>, no row is appended, and the exit code is 0.
\<close>

theorem append_failure_exits_zero:
  "get_post_insights (insights_resp logger_world_append_fails) = Some [(''views'', 12), (''likes'', 3)]
   \<and> append_raises logger_world_append_fails
   \<and> fst (logger_main logger_world_append_fails ''acct'' ''p0'' ''text'' logger_init) = 0
   \<and> rows (snd (logger_main logger_world_append_fails ''acct'' ''p0'' ''text'' logger_init)) = []"
  by (simp add: logger_main_def logger_world_append_fails_def logger_world_ok_def example_insights
        logger_init_def Let_def get_or_create_worksheet_def log_to_google_sheet_def)

lemma unusable_fetch_exits_one:
  "get_post_insights (insights_resp w) = None \<or> get_post_insights (insights_resp w) = Some [] \<Longrightarrow>
   logger_main w acct pid content s = (1, s)"
  by (auto simp: logger_main_def)

subsection \<open>The layout of a log row\<close>

text \<open>
  Claim C8. Every row the Insight Logger appends is the header row of a new worksheet
  or the row of the cells post identifier, account, content, views, likes, replies,
  date, time, in this order, where date and time are both formatted from the first
  reading of the clock; the clock is read at most once in a run. When everything
  succeeds on an existing worksheet that row is the only one appended.
\<close>

theorem log_row_layout:
  "let s' = snd (logger_main w acct pid content logger_init)
   in (\<forall>row\<in>set (rows s').
         row = header_row
       \<or> (\<exists>insights. get_post_insights (insights_resp w) = Some insights
           \<and> row = [Txt pid, Txt acct, Txt content,
                     Num (insights_get insights ''views''),
                     Num (insights_get insights ''likes''),
                     Num (insights_get insights ''replies''),
                     Txt (strftime_date (clock w 0)), Txt (strftime_time (clock w 0))]))
    \<and> clock_reads s' \<le> 1
    \<and> (\<forall>insights.
          get_post_insights (insights_resp w) = Some insights \<and> insights \<noteq> []
        \<and> auth_ok w \<and> open_ok w \<and> worksheet_lookup w = WsFound \<and> \<not> append_raises w
        \<longrightarrow> rows s' = [[Txt pid, Txt acct, Txt content,
                        Num (insights_get insights ''views''),
                        Num (insights_get insights ''likes''),
                        Num (insights_get insights ''replies''),
                        Txt (strftime_date (clock w 0)), Txt (strftime_time (clock w 0))]]
          \<and> clock_reads s' = 1)"
  by (auto simp: logger_main_def logger_init_def Let_def get_or_create_worksheet_def
        log_to_google_sheet_def
      split: option.splits lookup.splits if_splits)

theorem log_row_layout_witness:
  "get_post_insights (insights_resp logger_world_ok) = Some [(''views'', 12), (''likes'', 3)]
   \<and> auth_ok logger_world_ok \<and> open_ok logger_world_ok \<and> worksheet_lookup logger_world_ok = WsFound
   \<and> \<not> append_raises logger_world_ok
   \<and> clock logger_world_ok 0 = example_time
   \<and> (let s' = snd (logger_main logger_world_ok ''acct'' ''p0'' ''text'' logger_init)
      in rows s' = [[Txt ''p0'', Txt ''acct'', Txt ''text'', Num 12, Num 3, Num 0,
                     Txt ''2026-03-07'', Txt ''09:05:59'']]
       \<and> clock_reads s' = 1)"
proof -
  have a: "get_post_insights (insights_resp logger_world_ok) = Some [(''views'', 12), (''likes'', 3)]"
    by (simp add: logger_world_ok_def example_insights)
  have b: "auth_ok logger_world_ok" "open_ok logger_world_ok" "worksheet_lookup logger_world_ok = WsFound"
    "\<not> append_raises logger_world_ok" "clock logger_world_ok 0 = example_time"
    by (simp_all add: logger_world_ok_def example_time_def)
  have c: "[(''views'', 12), (''likes'', 3)] \<noteq> ([] :: (string \<times> int) list)" by simp
  note lay = log_row_layout [of logger_world_ok "''acct''" "''p0''" "''text''", unfolded Let_def]
  have "rows (snd (logger_main logger_world_ok ''acct'' ''p0'' ''text'' logger_init)) =
          [[Txt ''p0'', Txt ''acct'', Txt ''text'',
            Num (insights_get [(''views'', 12), (''likes'', 3)] ''views''),
            Num (insights_get [(''views'', 12), (''likes'', 3)] ''likes''),
            Num (insights_get [(''views'', 12), (''likes'', 3)] ''replies''),
            Txt (strftime_date (clock logger_world_ok 0)), Txt (strftime_time (clock logger_world_ok 0))]]
       \<and> clock_reads (snd (logger_main logger_world_ok ''acct'' ''p0'' ''text'' logger_init)) = 1"
    using lay a b c by blast
  then show ?thesis
    using a b
    by (simp add: Let_def insights_get_def example_time_def strftime_date_def strftime_time_def
          pad2_def pad4_def digit_def)
qed

end
